theory Spec2Isabelle
  imports Complex_Main "HOL-Library.AList" "HOL-Library.Product_Lexorder"
begin


section \<open>Data model: labelled tables\<close>

text \<open>
  The notebook \<^verbatim>\<open>MortalityAnalysis_11.12.2019.ipynb\<close> works on one pandas table
  \<^verbatim>\<open>mydata\<close>. A table has a row index (here the last day of a quarter; the same date
  labels several rows, one per age band and sex) and an ordered list of labelled columns.
  Column values are Python floats; they are modelled as real numbers, so every
  statement below is about exact arithmetic.
\<close>

type_synonym date = "nat \<times> nat \<times> nat" \<comment> \<open>year, month, day\<close>

definition month :: "date \<Rightarrow> nat" where
  "month d = fst (snd d)"

datatype error = KeyError | ValueError | IndexError

type_synonym series = "real list"

record frame =
  index :: "date list"
  columns :: "(string \<times> series) list"

definition nrows :: "frame \<Rightarrow> nat" where
  "nrows df = length (index df)"

definition colnames :: "frame \<Rightarrow> string list" where
  "colnames df = map fst (columns df)"

text \<open>
  The invariant of a pandas table that the model relies on: column labels are unique
  and every column has one value per row.
\<close>

definition well_formed :: "frame \<Rightarrow> bool" where
  "well_formed df \<longleftrightarrow>
     distinct (colnames df) \<and> list_all (\<lambda>c. length (snd c) = nrows df) (columns df)"

text \<open>Exceptions are values: \<open>Inl\<close> carries the error, \<open>and_then\<close> is sequencing.\<close>

definition and_then :: "error + 'a \<Rightarrow> ('a \<Rightarrow> error + 'b) \<Rightarrow> error + 'b" where
  "and_then m f = (case m of Inl e \<Rightarrow> Inl e | Inr x \<Rightarrow> f x)"

text \<open>\<^verbatim>\<open>df[name]\<close>: a missing label raises \<^verbatim>\<open>KeyError\<close>.\<close>

definition getitem :: "frame \<Rightarrow> string \<Rightarrow> error + series" where
  "getitem df name = (case map_of (columns df) name of None \<Rightarrow> Inl KeyError | Some c \<Rightarrow> Inr c)"

text \<open>
  \<^verbatim>\<open>df[name] = s\<close>: an existing column is replaced in place, a new one is appended
  after the last column.
\<close>

definition setitem :: "frame \<Rightarrow> string \<Rightarrow> series \<Rightarrow> frame" where
  "setitem df name s = df\<lparr>columns := AList.update name s (columns df)\<rparr>"

text \<open>
  Arithmetic on two columns of tables that share one index is row by row.
\<close>

definition add_series :: "series \<Rightarrow> series \<Rightarrow> series" where
  "add_series a b = map2 (+) a b"

definition mul_series :: "series \<Rightarrow> series \<Rightarrow> series" where
  "mul_series a b = map2 (*) a b"

definition sub_series :: "series \<Rightarrow> series \<Rightarrow> series" where
  "sub_series a b = map2 (-) a b"

section \<open>Cell 5: the feature builder\<close>

definition agelist :: "string list" where
  "agelist = [''65'', ''75'', ''85'']"

definition agedesc :: "string list" where
  "agedesc = [''65-74'', ''75-84'', ''85+  '', ''All - Test data only'']"

text \<open>
  One pass of a loop body of cell 5:
  \<^verbatim>\<open>
    age_col = mydata["Age=M"+age]+mydata["Age=F"+age]
    mydata[p1+age]=mydata[f1]*age_col
    mydata[p2+age]=mydata[f2]*age_col
  \<close>
  The first loop runs it with \<open>f1, p1, f2, p2\<close> = Winter, WINT\_, Year, IMP\_, the second
  with AF, AF\_, VE, VE\_.
\<close>

definition interaction_step ::
  "string \<Rightarrow> string \<Rightarrow> string \<Rightarrow> string \<Rightarrow> string \<Rightarrow> frame \<Rightarrow> error + frame" where
  "interaction_step f1 p1 f2 p2 age mydata =
     and_then (getitem mydata (''Age=M'' @ age)) (\<lambda>m.
     and_then (getitem mydata (''Age=F'' @ age)) (\<lambda>f.
     let age_col = add_series m f in
     and_then (getitem mydata f1) (\<lambda>c1.
     let mydata1 = setitem mydata (p1 @ age) (mul_series c1 age_col) in
     and_then (getitem mydata1 f2) (\<lambda>c2.
     Inr (setitem mydata1 (p2 @ age) (mul_series c2 age_col))))))"

text \<open>\<^verbatim>\<open>for i in range(0,3): age=agelist[i]; ...\<close>: the body, once per age band, in order.\<close>

fun interaction_loop ::
  "string \<Rightarrow> string \<Rightarrow> string \<Rightarrow> string \<Rightarrow> string list \<Rightarrow> frame \<Rightarrow> error + frame" where
  "interaction_loop f1 p1 f2 p2 [] mydata = Inr mydata"
| "interaction_loop f1 p1 f2 p2 (age # ages) mydata =
     and_then (interaction_step f1 p1 f2 p2 age mydata) (interaction_loop f1 p1 f2 p2 ages)"

definition feature_builder :: "frame \<Rightarrow> error + frame" where
  "feature_builder mydata =
     and_then (interaction_loop ''Winter'' ''WINT_'' ''Year'' ''IMP_'' agelist mydata)
       (interaction_loop ''AF'' ''AF_'' ''VE'' ''VE_'' agelist)"


text \<open>
  \<^verbatim>\<open>X.drop(columns=[...], inplace=True)\<close>: every label must exist.
\<close>

definition drop_columns :: "frame \<Rightarrow> string list \<Rightarrow> error + frame" where
  "drop_columns df names =
     (if list_all (\<lambda>n. n \<in> set (colnames df)) names
      then Inr (df\<lparr>columns := filter (\<lambda>c. fst c \<notin> set names) (columns df)\<rparr>)
      else Inl KeyError)"

text \<open>
  \<^verbatim>\<open>X.insert(loc, name, v)\<close>: a constant column at position \<open>loc\<close>; the label must be
  new and \<open>loc\<close> at most the number of columns.
\<close>

definition insert_column :: "frame \<Rightarrow> nat \<Rightarrow> string \<Rightarrow> real \<Rightarrow> error + frame" where
  "insert_column df loc name v =
     (if name \<in> set (colnames df) then Inl ValueError
      else if length (columns df) < loc then Inl IndexError
      else Inr (df\<lparr>columns :=
             take loc (columns df) @ (name, replicate (nrows df) v) # drop loc (columns df)\<rparr>))"

text \<open>
  The rest of cell 5: \<^verbatim>\<open>X=mydata.copy()\<close>, the four base features dropped, the four
  placeholder columns inserted at positions 5 to 8. The cell leaves both \<^verbatim>\<open>mydata\<close>
  (with the interaction columns) and \<^verbatim>\<open>X\<close>.
\<close>

definition cell5 :: "frame \<Rightarrow> error + frame \<times> frame" where
  "cell5 mydata0 =
     and_then (feature_builder mydata0) (\<lambda>mydata.
     and_then (drop_columns mydata [''VE'', ''Year'', ''Winter'', ''AF'']) (\<lambda>X1.
     and_then (insert_column X1 5 ''PredR'' 0) (\<lambda>X2.
     and_then (insert_column X2 6 ''PredD'' 0) (\<lambda>X3.
     and_then (insert_column X3 7 ''PredR_Base'' 0) (\<lambda>X4.
     and_then (insert_column X4 8 ''PredD_Base'' 0) (\<lambda>X5.
     Inr (mydata, X5)))))))"

section \<open>Cell 7: split, fit, predict, decompose, cross-validate\<close>

text \<open>\<^verbatim>\<open>df.iloc[:, a:]\<close> and \<^verbatim>\<open>df.iloc[:, a:b]\<close>: slices never raise.\<close>

definition iloc_from :: "frame \<Rightarrow> nat \<Rightarrow> frame" where
  "iloc_from df a = df\<lparr>columns := drop a (columns df)\<rparr>"

definition iloc_range :: "frame \<Rightarrow> nat \<Rightarrow> nat \<Rightarrow> frame" where
  "iloc_range df a b = df\<lparr>columns := take (b - a) (drop a (columns df))\<rparr>"

text \<open>
  scikit-learn is not part of the repository, so what the notebook calls of it is a
  parameter of the model:
  \<^item> \<open>shuffle_split rng test_size n\<close>: the train and test row positions that
    \<^verbatim>\<open>train_test_split\<close> draws for \<open>n\<close> rows from the generator \<open>rng\<close>;
  \<^item> \<open>lr_fit cols y\<close>: \<^verbatim>\<open>LinearRegression().fit\<close> on the predictor columns and target;
  \<^item> \<open>cross_val_score cols y cv\<close>: the scores of
    \<^verbatim>\<open>cross_val_score(LinearRegression(), X, y, cv=cv)\<close>.
  A generator is either freshly seeded (\<^verbatim>\<open>random_state=seed\<close>) or the process-wide one
  in whatever state it is (\<^verbatim>\<open>random_state=None\<close>).
\<close>

datatype rng = Seeded nat | Ambient nat

record lin_model =
  coef :: "real list"
  intercept :: real

record library =
  shuffle_split :: "rng \<Rightarrow> real \<Rightarrow> nat \<Rightarrow> nat list \<times> nat list"
  lr_fit :: "series list \<Rightarrow> series \<Rightarrow> error + lin_model"
  cross_val_score :: "series list \<Rightarrow> series \<Rightarrow> nat \<Rightarrow> error + real list"

definition values_of :: "frame \<Rightarrow> series list" where
  "values_of df = map snd (columns df)"

text \<open>Selecting rows by position; a position outside the table raises.\<close>

definition take_items :: "'a list \<Rightarrow> nat list \<Rightarrow> error + 'a list" where
  "take_items xs idx =
     (if list_all (\<lambda>i. i < length xs) idx then Inr (map ((!) xs) idx) else Inl IndexError)"

definition take_rows :: "frame \<Rightarrow> nat list \<Rightarrow> error + frame" where
  "take_rows df idx =
     (if list_all (\<lambda>i. i < nrows df) idx
      then Inr \<lparr>index = map ((!) (index df)) idx,
                columns = map (\<lambda>c. (fst c, map ((!) (snd c)) idx)) (columns df)\<rparr>
      else Inl IndexError)"

text \<open>
  \<^verbatim>\<open>train_test_split(X, y, test_size=t, random_state=r)\<close>: the positions come from the
  generator that \<open>r\<close> selects, and each array is indexed by them.
\<close>

definition train_test_split ::
  "library \<Rightarrow> nat \<Rightarrow> frame \<Rightarrow> series \<Rightarrow> real \<Rightarrow> nat option \<Rightarrow>
     error + frame \<times> frame \<times> series \<times> series" where
  "train_test_split lib ambient X y test_size random_state =
     (let gen = (case random_state of None \<Rightarrow> Ambient ambient | Some seed \<Rightarrow> Seeded seed);
          (train, test) = shuffle_split lib gen test_size (nrows X)
      in and_then (take_rows X train) (\<lambda>X_train.
         and_then (take_rows X test) (\<lambda>X_test.
         and_then (take_items y train) (\<lambda>y_train.
         and_then (take_items y test) (\<lambda>y_test.
         Inr (X_train, X_test, y_train, y_test))))))"

text \<open>
  \<^verbatim>\<open>model.predict(X)\<close> of a linear model: for each row the intercept plus the sum of
  coefficient times feature value; the number of columns must be the number of
  coefficients.
\<close>

definition predict :: "lin_model \<Rightarrow> frame \<Rightarrow> error + series" where
  "predict m X =
     (if length (coef m) \<noteq> length (columns X) then Inl ValueError
      else Inr (map (\<lambda>i. sum_list (map2 (\<lambda>c w. snd c ! i * w) (columns X) (coef m)) + intercept m)
                  [0..<nrows X]))"

text \<open>\<^verbatim>\<open>df.mul(ws, axis=1)\<close>: column \<open>j\<close> times \<open>ws[j]\<close>.\<close>

definition mul_axis1 :: "frame \<Rightarrow> real list \<Rightarrow> error + frame" where
  "mul_axis1 df ws =
     (if length ws \<noteq> length (columns df) then Inl ValueError
      else Inr (df\<lparr>columns := map2 (\<lambda>c w. (fst c, map (\<lambda>x. x * w) (snd c))) (columns df) ws\<rparr>))"

text \<open>\<^verbatim>\<open>df.mul(vs, axis=0)\<close>: row \<open>i\<close> times \<open>vs[i]\<close>.\<close>

definition mul_axis0 :: "frame \<Rightarrow> real list \<Rightarrow> error + frame" where
  "mul_axis0 df vs =
     (if length vs \<noteq> nrows df then Inl ValueError
      else Inr (df\<lparr>columns := map (\<lambda>c. (fst c, mul_series (snd c) vs)) (columns df)\<rparr>))"

definition div_scalar :: "frame \<Rightarrow> real \<Rightarrow> frame" where
  "div_scalar df k = df\<lparr>columns := map (\<lambda>c. (fst c, map (\<lambda>x. x / k) (snd c))) (columns df)\<rparr>"

text \<open>\<^verbatim>\<open>mydata['Persons']*pred/1000/52\<close>.\<close>

definition to_deaths :: "series \<Rightarrow> series \<Rightarrow> series" where
  "to_deaths persons pred = map (\<lambda>x. x / 1000 / 52) (mul_series persons pred)"

text \<open>\<^verbatim>\<open>X[(X["Age=M"+age] == 1) | (X["Age=F"+age]==1)]\<close>: the row mask, and row selection by a mask.\<close>

definition age_mask :: "frame \<Rightarrow> string \<Rightarrow> error + bool list" where
  "age_mask X age =
     and_then (getitem X (''Age=M'' @ age)) (\<lambda>m.
     and_then (getitem X (''Age=F'' @ age)) (\<lambda>f.
     Inr (map2 (\<lambda>a b. a = 1 \<or> b = 1) m f)))"

definition filter_rows :: "frame \<Rightarrow> bool list \<Rightarrow> frame" where
  "filter_rows df sel =
     \<lparr>index = map fst (filter snd (zip (index df) sel)),
      columns = map (\<lambda>c. (fst c, map fst (filter snd (zip (snd c) sel)))) (columns df)\<rparr>"

text \<open>
  One pass of the cross-validation loop: the rows of one age band, then the two calls
  \<^verbatim>\<open>cross_val_score(LinearRegression(),Xg.iloc[:,7:],Xg["Rate"], cv=5)\<close> and
  \<^verbatim>\<open>cross_val_score(LinearRegression(),Xg.iloc[:,7:19],Xg["Rate"], cv=5)\<close>.
\<close>

definition cv_full_predictors :: "frame \<Rightarrow> frame" where
  "cv_full_predictors Xg = iloc_from Xg 7"

definition cv_base_predictors :: "frame \<Rightarrow> frame" where
  "cv_base_predictors Xg = iloc_range Xg 7 19"

definition cv_step :: "library \<Rightarrow> frame \<Rightarrow> string \<Rightarrow> error + real list \<times> real list" where
  "cv_step lib X age =
     and_then (age_mask X age) (\<lambda>sel.
     let Xg = filter_rows X sel in
     and_then (getitem Xg ''Rate'') (\<lambda>rate.
     and_then (cross_val_score lib (values_of (cv_full_predictors Xg)) rate 5) (\<lambda>full.
     and_then (getitem Xg ''Rate'') (\<lambda>rate'.
     and_then (cross_val_score lib (values_of (cv_base_predictors Xg)) rate' 5) (\<lambda>base.
     Inr (full, base))))))"

fun cv_loop :: "library \<Rightarrow> frame \<Rightarrow> string list \<Rightarrow> error + (real list \<times> real list) list" where
  "cv_loop lib X [] = Inr []"
| "cv_loop lib X (age # ages) =
     and_then (cv_step lib X age) (\<lambda>s.
     and_then (cv_loop lib X ages) (\<lambda>ss. Inr (s # ss)))"

record cell7_out =
  out_X :: frame
  out_X_cont :: frame
  out_model :: lin_model
  out_model_base :: lin_model
  out_split :: "frame \<times> frame \<times> series \<times> series"
  out_cv :: "(real list \<times> real list) list"

definition cell7 :: "library \<Rightarrow> nat \<Rightarrow> frame \<Rightarrow> frame \<Rightarrow> error + cell7_out" where
  "cell7 lib ambient mydata X =
     (let X_pred = iloc_from X 9 in
      and_then (getitem X ''Rate'') (\<lambda>y.
      and_then (train_test_split lib ambient X_pred y (2 / 10) (Some 10101))
        (\<lambda>(X_train, X_test, y_train, y_test).
      and_then (lr_fit lib (values_of X_train) y_train) (\<lambda>model.
      and_then (predict model X_pred) (\<lambda>predr.
      let X1 = setitem X ''PredR'' predr in
      and_then (getitem mydata ''Persons'') (\<lambda>persons.
      and_then (getitem X1 ''PredR'') (\<lambda>predr'.
      let X2 = setitem X1 ''PredD'' (to_deaths persons predr') in
      and_then (mul_axis1 X_pred (coef model)) (\<lambda>X_cont1.
      and_then (getitem mydata ''Persons'') (\<lambda>persons'.
      and_then (mul_axis0 X_cont1 persons') (\<lambda>X_cont2.
      let X_cont = div_scalar (div_scalar X_cont2 1000) 52 in
      and_then (lr_fit lib (values_of (iloc_range X_train 0 12)) y_train) (\<lambda>model_base.
      and_then (predict model_base (iloc_range X_pred 0 12)) (\<lambda>predr_base.
      let X3 = setitem X2 ''PredR_Base'' predr_base in
      and_then (getitem mydata ''Persons'') (\<lambda>persons''.
      and_then (getitem X3 ''PredR_Base'') (\<lambda>predr_base'.
      let X4 = setitem X3 ''PredD_Base'' (to_deaths persons'' predr_base') in
      and_then (cv_loop lib X4 agelist) (\<lambda>cv.
      Inr \<lparr>out_X = X4, out_X_cont = X_cont, out_model = model, out_model_base = model_base,
           out_split = (X_train, X_test, y_train, y_test), out_cv = cv\<rparr>)))))))))))))))"


section \<open>Cell 9: aggregation for the plots\<close>

text \<open>
  \<^verbatim>\<open>df.groupby(df.index).sum()\<close>: one row per distinct index value, in ascending order,
  every column summed over the rows that carry that index value.
\<close>

definition group_sum :: "date list \<Rightarrow> series \<Rightarrow> date \<Rightarrow> real" where
  "group_sum idx c k = sum_list (map snd (filter (\<lambda>r. fst r = k) (zip idx c)))"

definition groupby_index_sum :: "frame \<Rightarrow> frame" where
  "groupby_index_sum df =
     (let keys = sort (remdups (index df))
      in \<lparr>index = keys,
          columns = map (\<lambda>c. (fst c, map (group_sum (index df) (snd c)) keys)) (columns df)\<rparr>)"

text \<open>\<^verbatim>\<open>df.index.month == m\<close>.\<close>

definition month_mask :: "frame \<Rightarrow> nat \<Rightarrow> bool list" where
  "month_mask df m = map (\<lambda>d. month d = m) (index df)"

text \<open>
  A series handed to the plots keeps its index. Float division does not raise: dividing
  by zero gives an infinity or a NaN, written \<open>None\<close> here, and stays so under the
  scaling that follows.
\<close>

type_synonym labelled_series = "date list \<times> real option list"

definition labelled :: "frame \<Rightarrow> series \<Rightarrow> labelled_series" where
  "labelled df s = (index df, map Some s)"

definition float_div :: "real \<Rightarrow> real \<Rightarrow> real option" where
  "float_div a b = (if b = 0 then None else Some (a / b))"

text \<open>\<^verbatim>\<open>num/den*1000*52\<close> on two columns of one table.\<close>

definition rate_series :: "series \<Rightarrow> series \<Rightarrow> real option list" where
  "rate_series num den = map2 (\<lambda>a b. map_option (\<lambda>q. q * 1000 * 52) (float_div a b)) num den"

text \<open>\<^verbatim>\<open>dfd\<close> is a list of ten dictionaries; \<^verbatim>\<open>dfd[k].update({key: s})\<close>.\<close>

type_synonym plot_dicts = "(string \<times> labelled_series) list list"

definition dict_update :: "plot_dicts \<Rightarrow> nat \<Rightarrow> string \<Rightarrow> labelled_series \<Rightarrow> plot_dicts" where
  "dict_update dfd k key s = dfd[k := AList.update key s (dfd ! k)]"

text \<open>
  The branch \<^verbatim>\<open>if i < 3\<close> of the loop body: the rows of one age band summed by date
  (\<^verbatim>\<open>Xg\<close>), the winter quarter of that (\<^verbatim>\<open>Xgw\<close>), and the winter quarter of the
  contribution table summed by date (\<^verbatim>\<open>Xgc\<close>, no age filter). It returns \<^verbatim>\<open>Xg\<close> for
  the statement after the branch.
\<close>

definition age_views :: "frame \<Rightarrow> frame \<Rightarrow> nat \<Rightarrow> plot_dicts \<Rightarrow> error + frame \<times> plot_dicts" where
  "age_views X X_cont i dfd =
     (let age = agelist ! i in
      and_then (age_mask X age) (\<lambda>sel.
      let Xg = groupby_index_sum (filter_rows X sel) in
      and_then (getitem Xg ''Deaths'') (\<lambda>deaths.
      let dfd0 = dict_update dfd 0 (''Actual - Age '' @ agedesc ! i) (labelled Xg deaths) in
      and_then (getitem Xg ''Deaths'') (\<lambda>deaths1.
      and_then (getitem Xg ''PredD'') (\<lambda>predd.
      let dfd1 = dict_update dfd0 1 (''Unexplained - Age '' @ agedesc ! i)
                   (labelled Xg (sub_series deaths1 predd)) in
      let Xgw = groupby_index_sum (filter_rows Xg (month_mask Xg 2)) in
      and_then (getitem Xgw ''Deaths'') (\<lambda>wdeaths.
      and_then (getitem Xgw ''PredD_Base'') (\<lambda>wbase.
      let dfd2 = dict_update dfd1 2 (''Actual - Age '' @ agedesc ! i)
                   (labelled Xgw (sub_series wdeaths wbase)) in
      and_then (getitem Xgw ''Deaths'') (\<lambda>wdeaths1.
      and_then (getitem Xgw ''PredD'') (\<lambda>wpredd.
      let dfd3 = dict_update dfd2 3 (''Unexplained - Age '' @ agedesc ! i)
                   (labelled Xgw (sub_series wdeaths1 wpredd)) in
      let Xgc = groupby_index_sum (filter_rows X_cont (month_mask X_cont 2)) in
      and_then (getitem Xgc (''AF_'' @ age)) (\<lambda>caf.
      let dfd4 = dict_update dfd3 4 (''Contribution - AF '' @ agedesc ! i) (labelled Xgc caf) in
      and_then (getitem Xgc (''VE_'' @ age)) (\<lambda>cve.
      let dfd5 = dict_update dfd4 5 (''Contribution - VE '' @ agedesc ! i) (labelled Xgc cve) in
      Inr (Xg, dfd5))))))))))))"

text \<open>
  The statement after the branch:
  \<^verbatim>\<open>dfd[i+6]= {"Actual - Age "+agedesc[i]: Xg['Deaths']/Xg['Persons']*1000*52,
              "Predicted - Age "+agedesc[i]: Xg['PredD']/Xg['Persons']*1000*52}\<close>.
\<close>

definition rate_view :: "frame \<Rightarrow> nat \<Rightarrow> error + (string \<times> labelled_series) list" where
  "rate_view Xg i =
     and_then (getitem Xg ''Deaths'') (\<lambda>deaths.
     and_then (getitem Xg ''Persons'') (\<lambda>persons.
     and_then (getitem Xg ''PredD'') (\<lambda>predd.
     and_then (getitem Xg ''Persons'') (\<lambda>persons1.
     Inr [(''Actual - Age '' @ agedesc ! i, (index Xg, rate_series deaths persons)),
          (''Predicted - Age '' @ agedesc ! i, (index Xg, rate_series predd persons1))]))))"

definition cell9_step :: "frame \<Rightarrow> frame \<Rightarrow> nat \<Rightarrow> plot_dicts \<Rightarrow> error + plot_dicts" where
  "cell9_step X X_cont i dfd =
     and_then (if i < 3 then age_views X X_cont i dfd else Inr (groupby_index_sum X, dfd))
       (\<lambda>(Xg, dfd'). and_then (rate_view Xg i) (\<lambda>d. Inr (dfd'[i + 6 := d])))"

fun cell9_loop :: "frame \<Rightarrow> frame \<Rightarrow> nat list \<Rightarrow> plot_dicts \<Rightarrow> error + plot_dicts" where
  "cell9_loop X X_cont [] dfd = Inr dfd"
| "cell9_loop X X_cont (i # rest) dfd =
     and_then (cell9_step X X_cont i dfd) (cell9_loop X X_cont rest)"

definition cell9 :: "frame \<Rightarrow> frame \<Rightarrow> error + plot_dicts" where
  "cell9 X X_cont = cell9_loop X X_cont [0..<4] (replicate 10 [])"

section \<open>The notebook, cell after cell\<close>

definition notebook :: "library \<Rightarrow> nat \<Rightarrow> frame \<Rightarrow> error + cell7_out \<times> plot_dicts" where
  "notebook lib ambient mydata0 =
     and_then (cell5 mydata0) (\<lambda>(mydata, X).
     and_then (cell7 lib ambient mydata X) (\<lambda>r.
     and_then (cell9 (out_X r) (out_X_cont r)) (\<lambda>dfd.
     Inr (r, dfd))))"

section \<open>The input table\<close>

text \<open>
  Modelled from the spec: the table \<^verbatim>\<open>MortalityData_2010to2019\<close> that cell 3 loads is
  not in the repository. Its columns are those of the notebook's data dictionary, in
  that order: five measures, the four base features, then the six age indicators (in
  any order).
\<close>

definition base_columns :: "string list" where
  "base_columns = [''Deaths'', ''Persons'', ''Persons_NoAdj'', ''Rate'', ''Rate_NoAdj'',
                   ''Year'', ''Winter'', ''AF'', ''VE'']"

definition indicator_columns :: "string list" where
  "indicator_columns = [''Age=M65'', ''Age=M75'', ''Age=M85'', ''Age=F65'', ''Age=F75'', ''Age=F85'']"

definition has_schema :: "frame \<Rightarrow> bool" where
  "has_schema df \<longleftrightarrow>
     take 9 (colnames df) = base_columns \<and>
     length (colnames df) = 15 \<and>
     set (drop 9 (colnames df)) = set indicator_columns"

text \<open>
  A small table of that shape: three rows for the winter quarter of 2011 (men and women
  aged 65 to 74, men aged 75 to 84) and one for the spring quarter.
\<close>

definition example_table :: frame where
  "example_table =
     \<lparr>index = [(2011, 2, 28), (2011, 2, 28), (2011, 2, 28), (2011, 5, 31)],
      columns =
       [(''Deaths'', [10, 12, 30, 8]),
        (''Persons'', [1000, 1100, 500, 1000]),
        (''Persons_NoAdj'', [1000, 1100, 500, 1000]),
        (''Rate'', [520, 567, 3120, 416]),
        (''Rate_NoAdj'', [520, 567, 3120, 416]),
        (''Year'', [1, 1, 1, 1]),
        (''Winter'', [1, 1, 1, 0]),
        (''AF'', [30, 30, 30, 5]),
        (''VE'', [60, 60, 60, 60]),
        (''Age=M65'', [1, 0, 0, 1]),
        (''Age=M75'', [0, 0, 1, 0]),
        (''Age=M85'', [0, 0, 0, 0]),
        (''Age=F65'', [0, 1, 0, 0]),
        (''Age=F75'', [0, 0, 0, 0]),
        (''Age=F85'', [0, 0, 0, 0])]\<rparr>"

text \<open>
  A stand-in for the library, for running the model on the small table: the last row
  is held out, the fit returns coefficient 1 for every predictor and intercept 2, and
  every cross-validation score is 1.
\<close>

definition example_library :: library where
  "example_library =
     \<lparr>shuffle_split = (\<lambda>gen test_size n. ([0..<n - 1], [n - 1])),
      lr_fit = (\<lambda>cols y. Inr \<lparr>coef = replicate (length cols) 1, intercept = 2\<rparr>),
      cross_val_score = (\<lambda>cols y cv. Inr (replicate cv 1))\<rparr>"

text \<open>
  What the model leaves on the small table: \<^verbatim>\<open>mydata\<close> and \<^verbatim>\<open>X\<close> after cell 5, the
  results of cell 7 with the stand-in library, and the dictionaries of cell 9.
\<close>

definition example_mydata :: frame where
  "example_mydata =
     example_table\<lparr>columns := columns example_table @
       [(''WINT_65'', [1, 1, 0, 0]), (''IMP_65'', [1, 1, 0, 1]),
        (''WINT_75'', [0, 0, 1, 0]), (''IMP_75'', [0, 0, 1, 0]),
        (''WINT_85'', [0, 0, 0, 0]), (''IMP_85'', [0, 0, 0, 0]),
        (''AF_65'', [30, 30, 0, 5]), (''VE_65'', [60, 60, 0, 60]),
        (''AF_75'', [0, 0, 30, 0]), (''VE_75'', [0, 0, 60, 0]),
        (''AF_85'', [0, 0, 0, 0]), (''VE_85'', [0, 0, 0, 0])]\<rparr>"

definition example_X :: frame where
  "example_X =
     \<lparr>index = [(2011, 2, 28), (2011, 2, 28), (2011, 2, 28), (2011, 5, 31)],
      columns =
       [(''Deaths'', [10, 12, 30, 8]),
        (''Persons'', [1000, 1100, 500, 1000]),
        (''Persons_NoAdj'', [1000, 1100, 500, 1000]),
        (''Rate'', [520, 567, 3120, 416]),
        (''Rate_NoAdj'', [520, 567, 3120, 416]),
        (''PredR'', [0, 0, 0, 0]), (''PredD'', [0, 0, 0, 0]),
        (''PredR_Base'', [0, 0, 0, 0]), (''PredD_Base'', [0, 0, 0, 0]),
        (''Age=M65'', [1, 0, 0, 1]), (''Age=M75'', [0, 0, 1, 0]),
        (''Age=M85'', [0, 0, 0, 0]), (''Age=F65'', [0, 1, 0, 0]),
        (''Age=F75'', [0, 0, 0, 0]), (''Age=F85'', [0, 0, 0, 0]),
        (''WINT_65'', [1, 1, 0, 0]), (''IMP_65'', [1, 1, 0, 1]),
        (''WINT_75'', [0, 0, 1, 0]), (''IMP_75'', [0, 0, 1, 0]),
        (''WINT_85'', [0, 0, 0, 0]), (''IMP_85'', [0, 0, 0, 0]),
        (''AF_65'', [30, 30, 0, 5]), (''VE_65'', [60, 60, 0, 60]),
        (''AF_75'', [0, 0, 30, 0]), (''VE_75'', [0, 0, 60, 0]),
        (''AF_85'', [0, 0, 0, 0]), (''VE_85'', [0, 0, 0, 0])]\<rparr>"

definition example_run :: cell7_out where
  "example_run =
     \<lparr>out_X =
     \<lparr>index =
     [(2011, 2, 28), (2011, 2, 28), (2011, 2, 28), (2011, 5, 31)],
     columns =
     [(''Deaths'', [10, 12, 30, 8]),
     (''Persons'', [1000, 1100, 500, 1000]),
     (''Persons_NoAdj'', [1000, 1100, 500, 1000]),
     (''Rate'', [520, 567, 3120, 416]),
     (''Rate_NoAdj'', [520, 567, 3120, 416]),
     (''PredR'', [95, 95, 95, 69]),
     (''PredD'', [95 / 52, 209 / 104, 95 / 104, 69 / 52]),
     (''PredR_Base'', [5, 5, 5, 4]),
     (''PredD_Base'', [5 / 52, 11 / 104, 5 / 104, 1 / 13]),
     (''Age=M65'', [1, 0, 0, 1]), (''Age=M75'', [0, 0, 1, 0]),
     (''Age=M85'', [0, 0, 0, 0]), (''Age=F65'', [0, 1, 0, 0]),
     (''Age=F75'', [0, 0, 0, 0]), (''Age=F85'', [0, 0, 0, 0]),
     (''WINT_65'', [1, 1, 0, 0]), (''IMP_65'', [1, 1, 0, 1]),
     (''WINT_75'', [0, 0, 1, 0]), (''IMP_75'', [0, 0, 1, 0]),
     (''WINT_85'', [0, 0, 0, 0]), (''IMP_85'', [0, 0, 0, 0]),
     (''AF_65'', [30, 30, 0, 5]), (''VE_65'', [60, 60, 0, 60]),
     (''AF_75'', [0, 0, 30, 0]), (''VE_75'', [0, 0, 60, 0]),
     (''AF_85'', [0, 0, 0, 0]), (''VE_85'', [0, 0, 0, 0])]\<rparr>,
     out_X_cont =
     \<lparr>index =
     [(2011, 2, 28), (2011, 2, 28), (2011, 2, 28), (2011, 5, 31)],
     columns =
     [(''Age=M65'', [1 / 52, 0, 0, 1 / 52]),
     (''Age=M75'', [0, 0, 1 / 104, 0]),
     (''Age=M85'', [0, 0, 0, 0]),
     (''Age=F65'', [0, 11 / 520, 0, 0]),
     (''Age=F75'', [0, 0, 0, 0]), (''Age=F85'', [0, 0, 0, 0]),
     (''WINT_65'', [1 / 52, 11 / 520, 0, 0]),
     (''IMP_65'', [1 / 52, 11 / 520, 0, 1 / 52]),
     (''WINT_75'', [0, 0, 1 / 104, 0]),
     (''IMP_75'', [0, 0, 1 / 104, 0]),
     (''WINT_85'', [0, 0, 0, 0]), (''IMP_85'', [0, 0, 0, 0]),
     (''AF_65'', [15 / 26, 33 / 52, 0, 5 / 52]),
     (''VE_65'', [15 / 13, 33 / 26, 0, 15 / 13]),
     (''AF_75'', [0, 0, 15 / 52, 0]),
     (''VE_75'', [0, 0, 15 / 26, 0]), (''AF_85'', [0, 0, 0, 0]),
     (''VE_85'', [0, 0, 0, 0])]\<rparr>,
     out_model =
     \<lparr>coef = [1, 1, 1, 1, 1, 1, 1, 1, 1, 1, 1, 1, 1, 1, 1, 1, 1, 1],
     intercept = 2\<rparr>,
     out_model_base =
     \<lparr>coef = [1, 1, 1, 1, 1, 1, 1, 1, 1, 1, 1, 1], intercept = 2\<rparr>,
     out_split =
     (\<lparr>index = [(2011, 2, 28), (2011, 2, 28), (2011, 2, 28)],
     columns =
     [(''Age=M65'', [1, 0, 0]), (''Age=M75'', [0, 0, 1]),
     (''Age=M85'', [0, 0, 0]), (''Age=F65'', [0, 1, 0]),
     (''Age=F75'', [0, 0, 0]), (''Age=F85'', [0, 0, 0]),
     (''WINT_65'', [1, 1, 0]), (''IMP_65'', [1, 1, 0]),
     (''WINT_75'', [0, 0, 1]), (''IMP_75'', [0, 0, 1]),
     (''WINT_85'', [0, 0, 0]), (''IMP_85'', [0, 0, 0]),
     (''AF_65'', [30, 30, 0]), (''VE_65'', [60, 60, 0]),
     (''AF_75'', [0, 0, 30]), (''VE_75'', [0, 0, 60]),
     (''AF_85'', [0, 0, 0]), (''VE_85'', [0, 0, 0])]\<rparr>,
     \<lparr>index = [(2011, 5, 31)],
     columns =
     [(''Age=M65'', [1]), (''Age=M75'', [0]), (''Age=M85'', [0]),
     (''Age=F65'', [0]), (''Age=F75'', [0]), (''Age=F85'', [0]),
     (''WINT_65'', [0]), (''IMP_65'', [1]), (''WINT_75'', [0]),
     (''IMP_75'', [0]), (''WINT_85'', [0]), (''IMP_85'', [0]),
     (''AF_65'', [5]), (''VE_65'', [60]), (''AF_75'', [0]),
     (''VE_75'', [0]), (''AF_85'', [0]), (''VE_85'', [0])]\<rparr>,
     [520, 567, 3120], [416]),
     out_cv =
     [([1, 1, 1, 1, 1], [1, 1, 1, 1, 1]),
     ([1, 1, 1, 1, 1], [1, 1, 1, 1, 1]),
     ([1, 1, 1, 1, 1], [1, 1, 1, 1, 1])]\<rparr>"

definition example_plots :: plot_dicts where
  "example_plots =
     [[(''Actual - Age 65-74'', [(2011, 2, 28), (2011, 5, 31)],
     [Some 22, Some 8]),
     (''Actual - Age 75-84'', [(2011, 2, 28)], [Some 30]),
     (''Actual - Age 85+  '', [], [])],
     [(''Unexplained - Age 65-74'', [(2011, 2, 28), (2011, 5, 31)],
     [Some (1889 / 104), Some (347 / 52)]),
     (''Unexplained - Age 75-84'', [(2011, 2, 28)], [Some (3025 / 104)]),
     (''Unexplained - Age 85+  '', [], [])],
     [(''Actual - Age 65-74'', [(2011, 2, 28)], [Some (2267 / 104)]),
     (''Actual - Age 75-84'', [(2011, 2, 28)], [Some (3115 / 104)]),
     (''Actual - Age 85+  '', [], [])],
     [(''Unexplained - Age 65-74'', [(2011, 2, 28)], [Some (1889 / 104)]),
     (''Unexplained - Age 75-84'', [(2011, 2, 28)], [Some (3025 / 104)]),
     (''Unexplained - Age 85+  '', [], [])],
     [(''Contribution - AF 65-74'', [(2011, 2, 28)], [Some (63 / 52)]),
     (''Contribution - AF 75-84'', [(2011, 2, 28)], [Some (15 / 52)]),
     (''Contribution - AF 85+  '', [(2011, 2, 28)], [Some 0])],
     [(''Contribution - VE 65-74'', [(2011, 2, 28)], [Some (63 / 26)]),
     (''Contribution - VE 75-84'', [(2011, 2, 28)], [Some (15 / 26)]),
     (''Contribution - VE 85+  '', [(2011, 2, 28)], [Some 0])],
     [(''Actual - Age 65-74'', [(2011, 2, 28), (2011, 5, 31)],
     [Some (11440 / 21), Some 416]),
     (''Predicted - Age 65-74'', [(2011, 2, 28), (2011, 5, 31)],
     [Some 95, Some 69])],
     [(''Actual - Age 75-84'', [(2011, 2, 28)], [Some 3120]),
     (''Predicted - Age 75-84'', [(2011, 2, 28)], [Some 95])],
     [(''Actual - Age 85+  '', [], []),
     (''Predicted - Age 85+  '', [], [])],
     [(''Actual - Age All - Test data only'',
     [(2011, 2, 28), (2011, 5, 31)], [Some 1040, Some 416]),
     (''Predicted - Age All - Test data only'',
     [(2011, 2, 28), (2011, 5, 31)], [Some 95, Some 69])]]"

text \<open>The small table without its last column, the indicator of women aged 85 and over.\<close>

definition example_incomplete :: frame where
  "example_incomplete = example_table\<lparr>columns := butlast (columns example_table)\<rparr>"

section \<open>Auxiliary notions for the proofs\<close>

text \<open>The labels a feature loop writes never collide with the labels it reads.\<close>

definition fresh_labels :: "string \<Rightarrow> string \<Rightarrow> string \<Rightarrow> string \<Rightarrow> bool" where
  "fresh_labels f1 p1 f2 p2 \<longleftrightarrow>
     (\<forall>a b. p1 @ a \<noteq> p2 @ b \<and> (p1 @ a = p1 @ b \<longrightarrow> a = b) \<and> (p2 @ a = p2 @ b \<longrightarrow> a = b) \<and>
        p1 @ a \<noteq> f1 \<and> p1 @ a \<noteq> f2 \<and> p2 @ a \<noteq> f1 \<and> p2 @ a \<noteq> f2 \<and>
        p1 @ a \<noteq> ''Age=M'' @ b \<and> p1 @ a \<noteq> ''Age=F'' @ b \<and>
        p2 @ a \<noteq> ''Age=M'' @ b \<and> p2 @ a \<noteq> ''Age=F'' @ b)"

text \<open>The labels of the twelve interaction columns, in the order cell 5 creates them.\<close>

definition interaction_labels :: "string list" where
  "interaction_labels =
     [''WINT_65'', ''IMP_65'', ''WINT_75'', ''IMP_75'', ''WINT_85'', ''IMP_85'',
      ''AF_65'', ''VE_65'', ''AF_75'', ''VE_75'', ''AF_85'', ''VE_85'']"

text \<open>Every series of the four winter-quarter dictionaries is indexed by February dates only.\<close>

definition winter_only :: "plot_dicts \<Rightarrow> bool" where
  "winter_only dfd \<longleftrightarrow>
     list_all (\<lambda>k. list_all (\<lambda>e. list_all (\<lambda>d. month d = 2) (fst (snd e))) (dfd ! k)) [2, 3, 4, 5]"

text \<open>The sum of a column over the row positions that satisfy a condition.\<close>

definition sum_where :: "(nat \<Rightarrow> bool) \<Rightarrow> series \<Rightarrow> real" where
  "sum_where P c = sum_list (map ((!) c) (filter P [0..<length c]))"

text \<open>
  The total of a column over the rows selected by a mask that carry a given date: for
  an age band's mask, the band's total at that date over the sex-split rows.
\<close>

definition band_date_total :: "frame \<Rightarrow> bool list \<Rightarrow> series \<Rightarrow> date \<Rightarrow> real" where
  "band_date_total X sel c d = sum_where (\<lambda>r. sel ! r \<and> index X ! r = d) c"


section \<open>Basic facts about tables\<close>

lemma and_then_Inr_iff: "and_then m f = Inr y \<longleftrightarrow> (\<exists>x. m = Inr x \<and> f x = Inr y)"
  by (cases m) (simp_all add: and_then_def)

lemma and_then_Inl: "and_then (Inl e) f = Inl e"
  by (simp add: and_then_def)

lemma and_then_Inr: "and_then (Inr x) f = f x"
  by (simp add: and_then_def)

lemma getitem_setitem: "getitem (setitem df n s) k = (if k = n then Inr s else getitem df k)"
  by (simp add: getitem_def setitem_def update_conv')

lemma index_setitem: "index (setitem df n s) = index df"
  by (simp add: setitem_def)

lemma nrows_setitem: "nrows (setitem df n s) = nrows df"
  by (simp add: nrows_def index_setitem)

lemma set_update_subset: "set (AList.update k v al) \<subseteq> insert (k, v) (set al)"
  by (induction al) auto

lemma well_formed_setitem:
  assumes "well_formed df" "length s = nrows df"
  shows "well_formed (setitem df n s)"
proof -
  have "distinct (map fst (AList.update n s (columns df)))"
    using assms(1) by (simp add: well_formed_def colnames_def distinct_update)
  moreover have "\<forall>c \<in> set (AList.update n s (columns df)). length (snd c) = nrows df"
    using assms set_update_subset [of n s "columns df"]
    by (auto simp: well_formed_def list_all_iff)
  ultimately show ?thesis
    by (simp add: well_formed_def colnames_def setitem_def nrows_def list_all_iff)
qed

lemma getitem_length: "well_formed df \<Longrightarrow> getitem df n = Inr c \<Longrightarrow> length c = nrows df"
  by (auto simp: getitem_def well_formed_def list_all_iff split: option.splits dest!: map_of_SomeD)

section \<open>The feature loops\<close>

lemma interaction_step_Inr:
  assumes "interaction_step f1 p1 f2 p2 age df = Inr df'"
  obtains m f c1 c2 where
    "getitem df (''Age=M'' @ age) = Inr m" "getitem df (''Age=F'' @ age) = Inr f"
    "getitem df f1 = Inr c1"
    "getitem (setitem df (p1 @ age) (mul_series c1 (add_series m f))) f2 = Inr c2"
    "df' = setitem (setitem df (p1 @ age) (mul_series c1 (add_series m f))) (p2 @ age)
             (mul_series c2 (add_series m f))"
  using assms unfolding interaction_step_def and_then_Inr_iff Let_def by auto

lemma interaction_step_other:
  assumes "interaction_step f1 p1 f2 p2 age df = Inr df'" "name \<noteq> p1 @ age" "name \<noteq> p2 @ age"
  shows "getitem df' name = getitem df name"
  using assms(1)
proof (rule interaction_step_Inr)
  fix m f c1 c2
  assume "df' = setitem (setitem df (p1 @ age) (mul_series c1 (add_series m f))) (p2 @ age)
             (mul_series c2 (add_series m f))"
  then show ?thesis using assms(2,3) by (simp add: getitem_setitem)
qed

lemma interaction_step_index:
  "interaction_step f1 p1 f2 p2 age df = Inr df' \<Longrightarrow> index df' = index df"
  by (erule interaction_step_Inr) (simp add: index_setitem)

lemma interaction_loop_other:
  "interaction_loop f1 p1 f2 p2 ages df = Inr df' \<Longrightarrow>
   \<forall>a \<in> set ages. name \<noteq> p1 @ a \<and> name \<noteq> p2 @ a \<Longrightarrow>
   getitem df' name = getitem df name"
proof (induction ages arbitrary: df)
  case Nil
  then show ?case by simp
next
  case (Cons age ages)
  from Cons.prems(1) obtain d1 where
    s: "interaction_step f1 p1 f2 p2 age df = Inr d1" and
    l: "interaction_loop f1 p1 f2 p2 ages d1 = Inr df'"
    by (auto simp: and_then_Inr_iff)
  have "getitem df' name = getitem d1 name"
    using Cons.IH [OF l] Cons.prems(2) by simp
  also have "\<dots> = getitem df name"
    using interaction_step_other [OF s] Cons.prems(2) by simp
  finally show ?case .
qed

lemma interaction_loop_index:
  "interaction_loop f1 p1 f2 p2 ages df = Inr df' \<Longrightarrow> index df' = index df"
proof (induction ages arbitrary: df)
  case Nil
  then show ?case by simp
next
  case (Cons age ages)
  then show ?case
    by (auto simp: and_then_Inr_iff dest: interaction_step_index)
qed

lemma fresh_winter: "fresh_labels ''Winter'' ''WINT_'' ''Year'' ''IMP_''"
  by (simp add: fresh_labels_def)

lemma fresh_frost: "fresh_labels ''AF'' ''AF_'' ''VE'' ''VE_''"
  by (simp add: fresh_labels_def)

lemma interaction_step_new:
  assumes "interaction_step f1 p1 f2 p2 age df = Inr df'" "fresh_labels f1 p1 f2 p2"
  shows "\<exists>m f c1 c2. getitem df (''Age=M'' @ age) = Inr m \<and> getitem df (''Age=F'' @ age) = Inr f \<and>
           getitem df f1 = Inr c1 \<and> getitem df f2 = Inr c2 \<and>
           getitem df' (p1 @ age) = Inr (mul_series c1 (add_series m f)) \<and>
           getitem df' (p2 @ age) = Inr (mul_series c2 (add_series m f))"
  using assms(1)
proof (rule interaction_step_Inr)
  fix m f c1 c2
  assume a: "getitem df (''Age=M'' @ age) = Inr m" "getitem df (''Age=F'' @ age) = Inr f"
    "getitem df f1 = Inr c1"
    "getitem (setitem df (p1 @ age) (mul_series c1 (add_series m f))) f2 = Inr c2"
    "df' = setitem (setitem df (p1 @ age) (mul_series c1 (add_series m f))) (p2 @ age)
             (mul_series c2 (add_series m f))"
  have n: "f2 \<noteq> p1 @ age" "p1 @ age \<noteq> p2 @ age"
    using assms(2) by (auto simp: fresh_labels_def)
  from a(4) n have "getitem df f2 = Inr c2" by (simp add: getitem_setitem)
  with a n show ?thesis by (simp add: getitem_setitem)
qed

lemma interaction_loop_new:
  "interaction_loop f1 p1 f2 p2 ages df = Inr df' \<Longrightarrow> fresh_labels f1 p1 f2 p2 \<Longrightarrow>
   distinct ages \<Longrightarrow> age \<in> set ages \<Longrightarrow>
   \<exists>m f c1 c2. getitem df (''Age=M'' @ age) = Inr m \<and> getitem df (''Age=F'' @ age) = Inr f \<and>
           getitem df f1 = Inr c1 \<and> getitem df f2 = Inr c2 \<and>
           getitem df' (p1 @ age) = Inr (mul_series c1 (add_series m f)) \<and>
           getitem df' (p2 @ age) = Inr (mul_series c2 (add_series m f))"
proof (induction ages arbitrary: df)
  case Nil
  then show ?case by simp
next
  case (Cons a ages)
  from Cons.prems(1) obtain d1 where
    s: "interaction_step f1 p1 f2 p2 a df = Inr d1" and
    l: "interaction_loop f1 p1 f2 p2 ages d1 = Inr df'"
    by (auto simp: and_then_Inr_iff)
  note fr = Cons.prems(2) [unfolded fresh_labels_def, rule_format]
  show ?case
  proof (cases "age = a")
    case True
    have keep: "\<forall>b \<in> set ages. p1 @ a \<noteq> p1 @ b \<and> p1 @ a \<noteq> p2 @ b \<and>
                  p2 @ a \<noteq> p1 @ b \<and> p2 @ a \<noteq> p2 @ b"
      using Cons.prems(3) fr by (metis distinct.simps(2))
    have "getitem df' (p1 @ a) = getitem d1 (p1 @ a)" "getitem df' (p2 @ a) = getitem d1 (p2 @ a)"
      using interaction_loop_other [OF l] keep by auto
    with interaction_step_new [OF s Cons.prems(2)] True show ?thesis by simp
  next
    case False
    with Cons.prems have "age \<in> set ages" "distinct ages" by auto
    from Cons.IH [OF l Cons.prems(2) this(2) this(1)] obtain m f c1 c2 where
      g: "getitem d1 (''Age=M'' @ age) = Inr m" "getitem d1 (''Age=F'' @ age) = Inr f"
         "getitem d1 f1 = Inr c1" "getitem d1 f2 = Inr c2"
         "getitem df' (p1 @ age) = Inr (mul_series c1 (add_series m f))"
         "getitem df' (p2 @ age) = Inr (mul_series c2 (add_series m f))"
      by blast
    have "getitem d1 (''Age=M'' @ age) = getitem df (''Age=M'' @ age)"
         "getitem d1 (''Age=F'' @ age) = getitem df (''Age=F'' @ age)"
         "getitem d1 f1 = getitem df f1" "getitem d1 f2 = getitem df f2"
      using interaction_step_other [OF s] fr by metis+
    with g show ?thesis
      by (intro exI [of _ m] exI [of _ f] exI [of _ c1] exI [of _ c2]) simp
  qed
qed

text \<open>
  What the feature builder leaves in the table: the columns it read are unchanged, and
  the four interaction columns of an age band are the products.
\<close>

lemma feature_builder_columns:
  assumes "feature_builder mydata = Inr out" "a \<in> set agelist"
  shows "\<exists>m w c1 c2 c3 c4.
           getitem mydata (''Age=M'' @ a) = Inr m \<and> getitem mydata (''Age=F'' @ a) = Inr w \<and>
           getitem mydata ''Winter'' = Inr c1 \<and> getitem mydata ''Year'' = Inr c2 \<and>
           getitem mydata ''AF'' = Inr c3 \<and> getitem mydata ''VE'' = Inr c4 \<and>
           getitem out (''WINT_'' @ a) = Inr (mul_series c1 (add_series m w)) \<and>
           getitem out (''IMP_'' @ a) = Inr (mul_series c2 (add_series m w)) \<and>
           getitem out (''AF_'' @ a) = Inr (mul_series c3 (add_series m w)) \<and>
           getitem out (''VE_'' @ a) = Inr (mul_series c4 (add_series m w))"
proof -
  from assms(1) obtain d1 where
    l1: "interaction_loop ''Winter'' ''WINT_'' ''Year'' ''IMP_'' agelist mydata = Inr d1" and
    l2: "interaction_loop ''AF'' ''AF_'' ''VE'' ''VE_'' agelist d1 = Inr out"
    by (auto simp: feature_builder_def and_then_Inr_iff)
  have dist: "distinct agelist" by (simp add: agelist_def)
  from interaction_loop_new [OF l1 fresh_winter dist assms(2)] obtain m w c1 c2 where
    g1: "getitem mydata (''Age=M'' @ a) = Inr m" "getitem mydata (''Age=F'' @ a) = Inr w"
        "getitem mydata ''Winter'' = Inr c1" "getitem mydata ''Year'' = Inr c2"
        "getitem d1 (''WINT_'' @ a) = Inr (mul_series c1 (add_series m w))"
        "getitem d1 (''IMP_'' @ a) = Inr (mul_series c2 (add_series m w))"
    by blast
  from interaction_loop_new [OF l2 fresh_frost dist assms(2)] obtain m' w' c3 c4 where
    g2: "getitem d1 (''Age=M'' @ a) = Inr m'" "getitem d1 (''Age=F'' @ a) = Inr w'"
        "getitem d1 ''AF'' = Inr c3" "getitem d1 ''VE'' = Inr c4"
        "getitem out (''AF_'' @ a) = Inr (mul_series c3 (add_series m' w'))"
        "getitem out (''VE_'' @ a) = Inr (mul_series c4 (add_series m' w'))"
    by blast
  have k1: "getitem d1 name = getitem mydata name"
    if "\<forall>b. name \<noteq> ''WINT_'' @ b \<and> name \<noteq> ''IMP_'' @ b" for name
    using interaction_loop_other [OF l1] that by simp
  have k2: "getitem out name = getitem d1 name"
    if "\<forall>b. name \<noteq> ''AF_'' @ b \<and> name \<noteq> ''VE_'' @ b" for name
    using interaction_loop_other [OF l2] that by simp
  have mw: "m' = m" "w' = w"
    using g1(1,2) g2(1,2) k1 [of "''Age=M'' @ a"] k1 [of "''Age=F'' @ a"] by simp_all
  have "getitem mydata ''AF'' = Inr c3" "getitem mydata ''VE'' = Inr c4"
    using g2 k1 [of "''AF''"] k1 [of "''VE''"] by simp_all
  moreover have "getitem out (''WINT_'' @ a) = Inr (mul_series c1 (add_series m w))"
    "getitem out (''IMP_'' @ a) = Inr (mul_series c2 (add_series m w))"
    using g1 k2 [of "''WINT_'' @ a"] k2 [of "''IMP_'' @ a"] by simp_all
  ultimately show ?thesis using g1 g2 mw by simp
qed

lemma feature_builder_other:
  assumes "feature_builder mydata = Inr out"
    "\<forall>b. name \<noteq> ''WINT_'' @ b \<and> name \<noteq> ''IMP_'' @ b \<and> name \<noteq> ''AF_'' @ b \<and> name \<noteq> ''VE_'' @ b"
  shows "getitem out name = getitem mydata name"
proof -
  from assms(1) obtain d1 where
    l1: "interaction_loop ''Winter'' ''WINT_'' ''Year'' ''IMP_'' agelist mydata = Inr d1" and
    l2: "interaction_loop ''AF'' ''AF_'' ''VE'' ''VE_'' agelist d1 = Inr out"
    by (auto simp: feature_builder_def and_then_Inr_iff)
  show ?thesis
    using interaction_loop_other [OF l1, of name] interaction_loop_other [OF l2, of name] assms(2)
    by simp
qed

lemma feature_builder_index: "feature_builder mydata = Inr out \<Longrightarrow> index out = index mydata"
  by (auto simp: feature_builder_def and_then_Inr_iff dest!: interaction_loop_index)


lemma length_interaction:
  "length b = length a \<Longrightarrow> length c = length a \<Longrightarrow> length (mul_series c (add_series a b)) = length a"
  by (simp add: mul_series_def add_series_def)


section \<open>The interaction features (cell 5)\<close>


lemma example_well_formed: "well_formed example_table"
  by (simp add: well_formed_def example_table_def colnames_def nrows_def)

lemma example_features: "feature_builder example_table = Inr example_mydata"
  by (simp add: feature_builder_def interaction_step_def and_then_def getitem_def setitem_def
      agelist_def add_series_def mul_series_def example_table_def example_mydata_def Let_def)



section \<open>What cell 5 hands to cell 7\<close>

lemma interaction_step_wf:
  assumes "interaction_step f1 p1 f2 p2 age df = Inr df'" "well_formed df"
  shows "well_formed df'"
  using assms(1)
proof (rule interaction_step_Inr)
  fix m f c1 c2
  let ?d1 = "setitem df (p1 @ age) (mul_series c1 (add_series m f))"
  assume a: "getitem df (''Age=M'' @ age) = Inr m" "getitem df (''Age=F'' @ age) = Inr f"
    "getitem df f1 = Inr c1" "getitem ?d1 f2 = Inr c2"
    "df' = setitem ?d1 (p2 @ age) (mul_series c2 (add_series m f))"
  have len: "length m = nrows df" "length f = nrows df" "length c1 = nrows df"
    using a(1-3) assms(2) by (auto dest: getitem_length)
  have w1: "well_formed ?d1"
    by (rule well_formed_setitem [OF assms(2)]) (simp add: length_interaction len)
  then have "length c2 = nrows df"
    using a(4) getitem_length [of ?d1 f2 c2] by (simp add: nrows_setitem)
  then show ?thesis
    unfolding a(5)
    by (intro well_formed_setitem [OF w1]) (simp add: length_interaction len nrows_setitem)
qed

lemma interaction_loop_wf:
  "interaction_loop f1 p1 f2 p2 ages df = Inr df' \<Longrightarrow> well_formed df \<Longrightarrow> well_formed df'"
proof (induction ages arbitrary: df)
  case Nil
  then show ?case by simp
next
  case (Cons age ages)
  then show ?case
    by (auto simp: and_then_Inr_iff dest: interaction_step_wf)
qed

lemma feature_builder_wf:
  "feature_builder mydata = Inr out \<Longrightarrow> well_formed mydata \<Longrightarrow> well_formed out"
  by (auto simp: feature_builder_def and_then_Inr_iff dest: interaction_loop_wf)

lemma drop_columns_Inr:
  assumes "drop_columns df names = Inr df'"
  shows "index df' = index df"
    and "columns df' = filter (\<lambda>c. fst c \<notin> set names) (columns df)"
    and "set names \<subseteq> set (colnames df)"
  using assms by (auto simp: drop_columns_def list_all_iff split: if_splits)

lemma map_of_filter_keys:
  "k \<notin> S \<Longrightarrow> map_of (filter (\<lambda>c. fst c \<notin> S) al) k = map_of al k"
  by (induction al) auto

lemma drop_columns_getitem:
  "drop_columns df names = Inr df' \<Longrightarrow> name \<notin> set names \<Longrightarrow> getitem df' name = getitem df name"
  by (simp add: drop_columns_Inr(2) getitem_def map_of_filter_keys)

lemma drop_columns_wf:
  assumes "drop_columns df names = Inr df'" "well_formed df"
  shows "well_formed df'"
  using assms(2) drop_columns_Inr(1,2) [OF assms(1)]
  by (auto simp: well_formed_def colnames_def nrows_def list_all_iff distinct_map_filter)

lemma insert_column_Inr:
  assumes "insert_column df loc name v = Inr df'"
  shows "index df' = index df"
    and "columns df' = take loc (columns df) @ (name, replicate (nrows df) v) # drop loc (columns df)"
    and "name \<notin> set (colnames df)" and "loc \<le> length (columns df)"
  using assms by (auto simp: insert_column_def split: if_splits)

lemma map_of_insert_at:
  assumes "k \<notin> fst ` set al"
  shows "map_of (take n al @ (k, v) # drop n al) k' = (if k' = k then Some v else map_of al k')"
proof -
  have e: "map_of al = map_of (drop n al) ++ map_of (take n al)"
    by (metis append_take_drop_id map_of_append)
  have none: "map_of (take n al) k = None"
    using assms by (auto simp: map_of_eq_None_iff dest: in_set_takeD)
  show ?thesis
    unfolding map_of_append by (auto simp: e map_add_def none split: option.splits)
qed

lemma distinct_insert_at:
  assumes "distinct xs" "y \<notin> set xs"
  shows "distinct (take n xs @ y # drop n xs)"
proof -
  have "distinct (take n xs) \<and> distinct (drop n xs) \<and> set (take n xs) \<inter> set (drop n xs) = {}"
    using distinct_append [of "take n xs" "drop n xs"] assms(1) by simp
  then show ?thesis
    using assms(2) by (auto dest: in_set_takeD in_set_dropD)
qed

lemma insert_column_getitem:
  assumes "insert_column df loc name v = Inr df'"
  shows "getitem df' k = (if k = name then Inr (replicate (nrows df) v) else getitem df k)"
proof -
  have "name \<notin> fst ` set (columns df)"
    using insert_column_Inr(3) [OF assms] by (simp add: colnames_def)
  from map_of_insert_at [OF this, of loc "replicate (nrows df) v" k] show ?thesis
    by (simp add: getitem_def insert_column_Inr(2) [OF assms])
qed

lemma insert_column_wf:
  assumes "insert_column df loc name v = Inr df'" "well_formed df"
  shows "well_formed df'"
proof -
  note i = insert_column_Inr [OF assms(1)]
  have "map fst (columns df') = take loc (colnames df) @ name # drop loc (colnames df)"
    unfolding i(2) by (simp add: colnames_def take_map drop_map)
  then have "distinct (map fst (columns df'))"
    using distinct_insert_at [of "colnames df" name loc] assms(2) i(3)
    by (simp add: well_formed_def)
  moreover have "\<forall>c \<in> set (columns df'). length (snd c) = nrows df"
    using assms(2) unfolding i(2)
    by (auto simp: well_formed_def list_all_iff dest: in_set_takeD in_set_dropD)
  ultimately show ?thesis
    using i(1) by (simp add: well_formed_def colnames_def nrows_def list_all_iff)
qed

text \<open>
  After cell 5, \<^verbatim>\<open>mydata\<close> is the feature builder's table, \<^verbatim>\<open>X\<close> is well formed with the
  same rows, and every column of \<^verbatim>\<open>X\<close> but the four placeholders is the column of
  \<^verbatim>\<open>mydata\<close>.
\<close>

lemma cell5_Inr:
  assumes "cell5 mydata0 = Inr (mydata, X)" "well_formed mydata0"
  shows "feature_builder mydata0 = Inr mydata"
    and "well_formed mydata" and "well_formed X"
    and "index mydata = index mydata0" and "index X = index mydata0"
    and "\<And>k. k \<notin> {''VE'', ''Year'', ''Winter'', ''AF'', ''PredR'', ''PredD'', ''PredR_Base'', ''PredD_Base''}
           \<Longrightarrow> getitem X k = getitem mydata k"
proof -
  from assms(1) obtain X1 X2 X3 X4 where
    fb: "feature_builder mydata0 = Inr mydata" and
    d: "drop_columns mydata [''VE'', ''Year'', ''Winter'', ''AF''] = Inr X1" and
    i1: "insert_column X1 5 ''PredR'' 0 = Inr X2" and
    i2: "insert_column X2 6 ''PredD'' 0 = Inr X3" and
    i3: "insert_column X3 7 ''PredR_Base'' 0 = Inr X4" and
    i4: "insert_column X4 8 ''PredD_Base'' 0 = Inr X"
    by (auto simp: cell5_def and_then_Inr_iff)
  show "feature_builder mydata0 = Inr mydata" by (fact fb)
  show wm: "well_formed mydata" using feature_builder_wf [OF fb assms(2)] .
  show "well_formed X"
    using wm drop_columns_wf [OF d] insert_column_wf [OF i1] insert_column_wf [OF i2]
      insert_column_wf [OF i3] insert_column_wf [OF i4] by blast
  show im: "index mydata = index mydata0" using feature_builder_index [OF fb] .
  show "index X = index mydata0"
    using im drop_columns_Inr(1) [OF d] insert_column_Inr(1) [OF i1] insert_column_Inr(1) [OF i2]
      insert_column_Inr(1) [OF i3] insert_column_Inr(1) [OF i4] by simp
  show "getitem X k = getitem mydata k"
    if "k \<notin> {''VE'', ''Year'', ''Winter'', ''AF'', ''PredR'', ''PredD'', ''PredR_Base'', ''PredD_Base''}"
    for k
    using that drop_columns_getitem [OF d, of k] insert_column_getitem [OF i1, of k]
      insert_column_getitem [OF i2, of k] insert_column_getitem [OF i3, of k]
      insert_column_getitem [OF i4, of k] by simp
qed

section \<open>What cell 7 computes\<close>

lemma cell7_Inr:
  assumes "cell7 lib g mydata X = Inr r"
  obtains y X_train X_test y_train y_test model predr persons X_cont1 X_cont2 model_base
    predr_base cv where
    "getitem X ''Rate'' = Inr y"
    "train_test_split lib g (iloc_from X 9) y (2 / 10) (Some 10101) =
       Inr (X_train, X_test, y_train, y_test)"
    "lr_fit lib (values_of X_train) y_train = Inr model"
    "predict model (iloc_from X 9) = Inr predr"
    "getitem mydata ''Persons'' = Inr persons"
    "mul_axis1 (iloc_from X 9) (coef model) = Inr X_cont1"
    "mul_axis0 X_cont1 persons = Inr X_cont2"
    "lr_fit lib (values_of (iloc_range X_train 0 12)) y_train = Inr model_base"
    "predict model_base (iloc_range (iloc_from X 9) 0 12) = Inr predr_base"
    "cv_loop lib (out_X r) agelist = Inr cv"
    "out_X r = setitem (setitem (setitem (setitem X ''PredR'' predr) ''PredD''
                 (to_deaths persons predr)) ''PredR_Base'' predr_base) ''PredD_Base''
                 (to_deaths persons predr_base)"
    "out_X_cont r = div_scalar (div_scalar X_cont2 1000) 52"
    "out_model r = model" "out_model_base r = model_base"
    "out_split r = (X_train, X_test, y_train, y_test)" "out_cv r = cv"
  using assms unfolding cell7_def Let_def
  by (auto simp: and_then_Inr_iff getitem_setitem split: prod.splits)

lemma cell7_out_X_getitem:
  assumes "out_X r = setitem (setitem (setitem (setitem X ''PredR'' predr) ''PredD'' predd)
                       ''PredR_Base'' predr_base) ''PredD_Base'' predd_base"
  shows "getitem (out_X r) ''PredR'' = Inr predr" "getitem (out_X r) ''PredD'' = Inr predd"
    "getitem (out_X r) ''PredR_Base'' = Inr predr_base"
    "getitem (out_X r) ''PredD_Base'' = Inr predd_base"
    "\<And>k. k \<notin> {''PredR'', ''PredD'', ''PredR_Base'', ''PredD_Base''} \<Longrightarrow>
       getitem (out_X r) k = getitem X k"
    "index (out_X r) = index X"
  unfolding assms by (simp_all add: getitem_setitem index_setitem)

lemma iloc_from_wf: "well_formed X \<Longrightarrow> well_formed (iloc_from X a)"
  by (auto simp: well_formed_def iloc_from_def colnames_def nrows_def list_all_iff drop_map [symmetric]
      dest: in_set_dropD)

lemma iloc_range_wf: "well_formed X \<Longrightarrow> well_formed (iloc_range X a b)"
  by (auto simp: well_formed_def iloc_range_def colnames_def nrows_def list_all_iff
      drop_map [symmetric] take_map [symmetric] dest: in_set_dropD in_set_takeD)

lemma nrows_iloc [simp]: "nrows (iloc_from X a) = nrows X" "nrows (iloc_range X a b) = nrows X"
  by (simp_all add: nrows_def iloc_from_def iloc_range_def)

lemma predict_Inr:
  assumes "predict m X = Inr p"
  shows "length (coef m) = length (columns X)" and "length p = nrows X"
    and "i < nrows X \<Longrightarrow>
         p ! i = sum_list (map2 (\<lambda>c w. snd c ! i * w) (columns X) (coef m)) + intercept m"
  using assms by (auto simp: predict_def split: if_splits)

lemma to_deaths_nth:
  "i < length persons \<Longrightarrow> length pred = length persons \<Longrightarrow>
   to_deaths persons pred ! i = pred ! i * persons ! i / 1000 / 52"
  by (simp add: to_deaths_def mul_series_def)

lemma length_to_deaths:
  "length pred = length persons \<Longrightarrow> length (to_deaths persons pred) = length persons"
  by (simp add: to_deaths_def mul_series_def)


section \<open>The run on the small table\<close>

lemma example_cell5: "cell5 example_table = Inr (example_mydata, example_X)"
  unfolding cell5_def example_features
  by (simp add: and_then_def drop_columns_def insert_column_def colnames_def example_mydata_def
      example_table_def example_X_def nrows_def)

lemma example_cell7: "cell7 example_library 0 example_mydata example_X = Inr example_run"
proof -
  obtain X_train X_test y_train y_test where
    sp: "out_split example_run = (X_train, X_test, y_train, y_test)"
    by (cases "out_split example_run") auto
  have xt: "X_train = fst (out_split example_run)" "y_train = fst (snd (snd (out_split example_run)))"
    using sp by simp_all
  have r: "getitem example_X ''Rate'' = Inr [520, 567, 3120, 416]"
    by (simp add: getitem_def example_X_def)
  have p: "getitem example_mydata ''Persons'' = Inr [1000, 1100, 500, 1000]"
    by (simp add: getitem_def example_mydata_def example_table_def)
  have s: "train_test_split example_library 0 (iloc_from example_X 9) [520, 567, 3120, 416] (1 / 5)
             (Some 10101) = Inr (X_train, X_test, y_train, y_test)"
    unfolding sp [symmetric]
    by (simp add: train_test_split_def take_rows_def take_items_def iloc_from_def
        example_library_def nrows_def example_X_def example_run_def and_then_def upt_rec numeral_nat)
  have f: "lr_fit example_library (values_of X_train) y_train = Inr (out_model example_run)"
    unfolding xt by (simp add: example_library_def values_of_def example_run_def)
  have fb: "lr_fit example_library (values_of (iloc_range X_train 0 12)) y_train =
              Inr (out_model_base example_run)"
    unfolding xt by (simp add: example_library_def values_of_def iloc_range_def example_run_def)
  have pr: "predict (out_model example_run) (iloc_from example_X 9) = Inr [95, 95, 95, 69]"
    by (simp add: predict_def iloc_from_def nrows_def example_X_def example_run_def upt_rec numeral_nat)
  have prb: "predict (out_model_base example_run) (iloc_range (iloc_from example_X 9) 0 12) =
               Inr [5, 5, 5, 4]"
    by (simp add: predict_def iloc_from_def iloc_range_def nrows_def example_X_def example_run_def
        upt_rec numeral_nat)
  have td: "to_deaths [1000, 1100, 500, 1000] [95, 95, 95, 69] = [95 / 52, 209 / 104, 95 / 104, 69 / 52]"
    "to_deaths [1000, 1100, 500, 1000] [5, 5, 5, 4] = [5 / 52, 11 / 104, 5 / 104, 1 / 13]"
    by (simp_all add: to_deaths_def mul_series_def)
  have xo: "setitem (setitem (setitem (setitem example_X ''PredR'' [95, 95, 95, 69]) ''PredD''
              [95 / 52, 209 / 104, 95 / 104, 69 / 52]) ''PredR_Base'' [5, 5, 5, 4]) ''PredD_Base''
              [5 / 52, 11 / 104, 5 / 104, 1 / 13] = out_X example_run"
    by (simp add: setitem_def example_X_def example_run_def)
  have xc: "\<exists>c1 c2. mul_axis1 (iloc_from example_X 9) (coef (out_model example_run)) = Inr c1 \<and>
      mul_axis0 c1 [1000, 1100, 500, 1000] = Inr c2 \<and>
      div_scalar (div_scalar c2 1000) 52 = out_X_cont example_run"
    by (simp add: mul_axis1_def mul_axis0_def div_scalar_def iloc_from_def mul_series_def nrows_def
        example_X_def example_run_def)
  then obtain c1 c2 where c:
    "mul_axis1 (iloc_from example_X 9) (coef (out_model example_run)) = Inr c1"
    "mul_axis0 c1 [1000, 1100, 500, 1000] = Inr c2"
    "div_scalar (div_scalar c2 1000) 52 = out_X_cont example_run" by blast
  have cv: "cv_loop example_library (out_X example_run) agelist = Inr (out_cv example_run)"
    by (simp add: agelist_def cv_step_def age_mask_def and_then_def getitem_def filter_rows_def
        example_library_def example_run_def eval_nat_numeral)
  show ?thesis
    unfolding cell7_def Let_def
    by (simp add: r s f fb pr prb p td xo c cv and_then_Inr getitem_setitem)
      (simp add: sp [symmetric])
qed

lemma example_nrows: "nrows example_table = 4"
  by (simp add: nrows_def example_table_def)

section \<open>Predictions and their decomposition (cell 7)\<close>

lemma contribution_row:
  assumes "well_formed Xp" "length persons = nrows Xp" "i < nrows Xp"
    "mul_axis1 Xp ws = Inr c1" "mul_axis0 c1 persons = Inr c2"
  shows "map (\<lambda>c. snd c ! i) (columns (div_scalar (div_scalar c2 1000) 52)) =
           map2 (\<lambda>c w. w * snd c ! i * persons ! i / 1000 / 52) (columns Xp) ws"
    and "colnames (div_scalar (div_scalar c2 1000) 52) = colnames Xp"
proof -
  from assms(4) have l: "length ws = length (columns Xp)" and
    c1: "columns c1 = map2 (\<lambda>c w. (fst c, map (\<lambda>x. x * w) (snd c))) (columns Xp) ws"
    by (auto simp: mul_axis1_def split: if_splits)
  from assms(5) have
    c2: "columns c2 = map (\<lambda>c. (fst c, mul_series (snd c) persons)) (columns c1)"
    by (auto simp: mul_axis0_def split: if_splits)
  have len: "length (snd c) = nrows Xp" if "c \<in> set (columns Xp)" for c
    using assms(1) that by (simp add: well_formed_def list_all_iff)
  have "map (\<lambda>c. snd c ! i) (columns (div_scalar (div_scalar c2 1000) 52)) =
          map (\<lambda>cw. map (\<lambda>x. x / 52) (map (\<lambda>x. x / 1000)
                 (mul_series (map (\<lambda>x. x * snd cw) (snd (fst cw))) persons)) ! i)
            (zip (columns Xp) ws)"
    by (simp add: div_scalar_def c2 c1 comp_def case_prod_unfold)
  also have "\<dots> = map (\<lambda>cw. snd cw * snd (fst cw) ! i * persons ! i / 1000 / 52) (zip (columns Xp) ws)"
  proof (rule map_cong [OF refl])
    fix cw assume "cw \<in> set (zip (columns Xp) ws)"
    then have "fst cw \<in> set (columns Xp)"
      by (metis set_zip_leftD prod.collapse)
    from len [OF this] show "map (\<lambda>x. x / 52) (map (\<lambda>x. x / 1000)
                 (mul_series (map (\<lambda>x. x * snd cw) (snd (fst cw))) persons)) ! i =
            snd cw * snd (fst cw) ! i * persons ! i / 1000 / 52"
      using assms(2,3) by (simp add: mul_series_def)
  qed
  finally show "map (\<lambda>c. snd c ! i) (columns (div_scalar (div_scalar c2 1000) 52)) =
           map2 (\<lambda>c w. w * snd c ! i * persons ! i / 1000 / 52) (columns Xp) ws"
    by (simp add: case_prod_unfold)
  have "map (\<lambda>x. fst (fst x)) (zip (columns Xp) ws) = map fst (map fst (zip (columns Xp) ws))"
    by simp
  also have "\<dots> = map fst (columns Xp)"
    using l by simp
  finally show "colnames (div_scalar (div_scalar c2 1000) 52) = colnames Xp"
    by (simp add: colnames_def div_scalar_def c2 c1 comp_def case_prod_unfold)
qed

lemma contribution_sum:
  "sum_list (map2 (\<lambda>c w. w * snd c ! i * (p :: real) / 1000 / 52) cols ws) =
     sum_list (map2 (\<lambda>c w. snd c ! i * w) cols ws) * p / 1000 / 52"
proof -
  have "sum_list (map2 (\<lambda>c w. w * snd c ! i * p / 1000 / 52) cols ws) =
          sum_list (map (\<lambda>cw. (snd (fst cw) ! i * snd cw) * (p / 52000)) (zip cols ws))"
    by (simp add: case_prod_unfold mult.commute)
  also have "\<dots> = sum_list (map (\<lambda>cw. snd (fst cw) ! i * snd cw) (zip cols ws)) * (p / 52000)"
    by (rule sum_list_mult_const)
  finally show ?thesis by (simp add: case_prod_unfold)
qed

text \<open>
  Claim C3. Both fitted models are applied to every row of the table, training and
  holdout rows alike: the prediction columns have one value per row, the value of the
  linear model on that row, and on every row the predicted death count is the predicted
  rate times \<open>Persons\<close> divided by 1000 and by 52, for the full and for the base model.
\<close>

theorem predictions_on_every_row:
  assumes "well_formed mydata0" "cell5 mydata0 = Inr (mydata, X)"
    "cell7 lib g mydata X = Inr r" "i < nrows mydata0"
  shows "\<exists>persons predr predd predr_base predd_base.
     getitem (out_X r) ''Persons'' = Inr persons \<and>
     getitem (out_X r) ''PredR'' = Inr predr \<and> getitem (out_X r) ''PredD'' = Inr predd \<and>
     getitem (out_X r) ''PredR_Base'' = Inr predr_base \<and>
     getitem (out_X r) ''PredD_Base'' = Inr predd_base \<and>
     predict (out_model r) (iloc_from X 9) = Inr predr \<and>
     predict (out_model_base r) (iloc_range (iloc_from X 9) 0 12) = Inr predr_base \<and>
     nrows (out_X r) = nrows mydata0 \<and> nrows X = nrows mydata0 \<and>
     length predr = nrows mydata0 \<and> length predd = nrows mydata0 \<and>
     length predr_base = nrows mydata0 \<and> length predd_base = nrows mydata0 \<and>
     predr ! i = sum_list (map2 (\<lambda>c w. snd c ! i * w) (columns (iloc_from X 9)) (coef (out_model r)))
                   + intercept (out_model r) \<and>
     predr_base ! i = sum_list (map2 (\<lambda>c w. snd c ! i * w)
                        (columns (iloc_range (iloc_from X 9) 0 12)) (coef (out_model_base r)))
                   + intercept (out_model_base r) \<and>
     predd ! i = predr ! i * persons ! i / 1000 / 52 \<and>
     predd_base ! i = predr_base ! i * persons ! i / 1000 / 52"
proof -
  note c5 = cell5_Inr [OF assms(2,1)]
  have n: "nrows X = nrows mydata0" "nrows mydata = nrows mydata0"
    using c5(4,5) by (simp_all add: nrows_def)
  from assms(3) show ?thesis
  proof (rule cell7_Inr)
    fix model predr persons model_base predr_base
    assume a: "predict model (iloc_from X 9) = Inr predr"
      "getitem mydata ''Persons'' = Inr persons"
      "predict model_base (iloc_range (iloc_from X 9) 0 12) = Inr predr_base"
      "out_X r = setitem (setitem (setitem (setitem X ''PredR'' predr) ''PredD''
                 (to_deaths persons predr)) ''PredR_Base'' predr_base) ''PredD_Base''
                 (to_deaths persons predr_base)"
      "out_model r = model" "out_model_base r = model_base"
    note g = cell7_out_X_getitem [OF a(4)]
    have lp: "length persons = nrows mydata0"
      using getitem_length [OF c5(2) a(2)] n by simp
    have l: "length predr = nrows mydata0" "length predr_base = nrows mydata0"
      using predict_Inr(2) [OF a(1)] predict_Inr(2) [OF a(3)] n by simp_all
    have v: "predr ! i = sum_list (map2 (\<lambda>c w. snd c ! i * w) (columns (iloc_from X 9)) (coef model))
                   + intercept model"
      "predr_base ! i = sum_list (map2 (\<lambda>c w. snd c ! i * w)
                        (columns (iloc_range (iloc_from X 9) 0 12)) (coef model_base))
                   + intercept model_base"
      using predict_Inr(3) [OF a(1), of i] predict_Inr(3) [OF a(3), of i] n assms(4) by simp_all
    have p: "getitem (out_X r) ''Persons'' = Inr persons"
      using g(5) [of "''Persons''"] c5(6) [of "''Persons''"] a(2) by simp
    have d: "to_deaths persons predr ! i = predr ! i * persons ! i / 1000 / 52"
      "to_deaths persons predr_base ! i = predr_base ! i * persons ! i / 1000 / 52"
      using assms(4) lp l by (simp_all add: to_deaths_nth)
    have "nrows (out_X r) = nrows mydata0"
      using g(6) n by (simp add: nrows_def)
    with p g(1-4) a(1,3,5,6) l lp v d n show ?thesis
      by (simp add: length_to_deaths)
  qed
qed

theorem predictions_on_every_row_witness:
  "well_formed example_table \<and> cell5 example_table = Inr (example_mydata, example_X) \<and>
   cell7 example_library 0 example_mydata example_X = Inr example_run \<and>
   (\<exists>persons predr predd predr_base predd_base.
     getitem (out_X example_run) ''Persons'' = Inr persons \<and>
     getitem (out_X example_run) ''PredR'' = Inr predr \<and>
     getitem (out_X example_run) ''PredD'' = Inr predd \<and>
     getitem (out_X example_run) ''PredR_Base'' = Inr predr_base \<and>
     getitem (out_X example_run) ''PredD_Base'' = Inr predd_base \<and>
     length predr = 4 \<and> length predr_base = 4 \<and>
     predd ! 3 = predr ! 3 * persons ! 3 / 1000 / 52 \<and>
     predd_base ! 3 = predr_base ! 3 * persons ! 3 / 1000 / 52)"
  using predictions_on_every_row [OF example_well_formed example_cell5 example_cell7, of 3]
    example_well_formed example_cell5 example_cell7
  by (simp add: example_nrows) blast

text \<open>
  Claim C2. On every row the contributions of the predictor columns (coefficient times
  feature value times \<open>Persons\<close> / 1000 / 52, the entries of the contribution table)
  and the intercept scaled the same way add up to the full model's predicted death
  count \<open>PredD\<close>.
\<close>

theorem contributions_reconcile:
  assumes "well_formed mydata0" "cell5 mydata0 = Inr (mydata, X)"
    "cell7 lib g mydata X = Inr r" "i < nrows mydata0"
  shows "\<exists>persons predd.
     getitem (out_X r) ''Persons'' = Inr persons \<and> getitem (out_X r) ''PredD'' = Inr predd \<and>
     colnames (out_X_cont r) = colnames (iloc_from X 9) \<and>
     length (coef (out_model r)) = length (columns (iloc_from X 9)) \<and>
     map (\<lambda>c. snd c ! i) (columns (out_X_cont r)) =
       map2 (\<lambda>c w. w * snd c ! i * persons ! i / 1000 / 52)
         (columns (iloc_from X 9)) (coef (out_model r)) \<and>
     sum_list (map (\<lambda>c. snd c ! i) (columns (out_X_cont r)))
       + intercept (out_model r) * persons ! i / 1000 / 52 = predd ! i"
proof -
  note c5 = cell5_Inr [OF assms(2,1)]
  have n: "nrows X = nrows mydata0" "nrows mydata = nrows mydata0"
    using c5(4,5) by (simp_all add: nrows_def)
  from assms(3) show ?thesis
  proof (rule cell7_Inr)
    fix model predr persons X_cont1 X_cont2 predr_base
    assume a: "predict model (iloc_from X 9) = Inr predr"
      "getitem mydata ''Persons'' = Inr persons"
      "mul_axis1 (iloc_from X 9) (coef model) = Inr X_cont1"
      "mul_axis0 X_cont1 persons = Inr X_cont2"
      "out_X r = setitem (setitem (setitem (setitem X ''PredR'' predr) ''PredD''
                 (to_deaths persons predr)) ''PredR_Base'' predr_base) ''PredD_Base''
                 (to_deaths persons predr_base)"
      "out_X_cont r = div_scalar (div_scalar X_cont2 1000) 52"
      "out_model r = model"
    note g = cell7_out_X_getitem [OF a(5)]
    have lp: "length persons = nrows (iloc_from X 9)"
      using getitem_length [OF c5(2) a(2)] n by simp
    have i: "i < nrows (iloc_from X 9)" using assms(4) n by simp
    note row = contribution_row [OF iloc_from_wf [OF c5(3)] lp i a(3,4)]
    have p: "getitem (out_X r) ''Persons'' = Inr persons"
      using g(5) [of "''Persons''"] c5(6) [of "''Persons''"] a(2) by simp
    define S where
      "S = sum_list (map2 (\<lambda>c w. snd c ! i * w) (columns (iloc_from X 9)) (coef model))"
    have 1: "predr ! i = S + intercept model"
      using predict_Inr(3) [OF a(1) i] by (simp add: S_def)
    have 2: "sum_list (map (\<lambda>c. snd c ! i) (columns (out_X_cont r))) = S * persons ! i / 1000 / 52"
      unfolding a(6) row(1) contribution_sum S_def by (rule refl)
    have 3: "to_deaths persons predr ! i = predr ! i * persons ! i / 1000 / 52"
      using i lp predict_Inr(2) [OF a(1)] by (simp add: to_deaths_nth)
    have "sum_list (map (\<lambda>c. snd c ! i) (columns (out_X_cont r)))
          + intercept model * persons ! i / 1000 / 52 = to_deaths persons predr ! i"
      unfolding 1 2 3 by (simp add: field_simps)
    with p g(2) row predict_Inr(1) [OF a(1)] a(6,7) show ?thesis by simp
  qed
qed

theorem contributions_reconcile_witness:
  "well_formed example_table \<and> cell5 example_table = Inr (example_mydata, example_X) \<and>
   cell7 example_library 0 example_mydata example_X = Inr example_run \<and>
   (\<exists>persons predd.
     getitem (out_X example_run) ''Persons'' = Inr persons \<and>
     getitem (out_X example_run) ''PredD'' = Inr predd \<and>
     sum_list (map (\<lambda>c. snd c ! 1) (columns (out_X_cont example_run)))
       + intercept (out_model example_run) * persons ! 1 / 1000 / 52 = predd ! 1)"
  using contributions_reconcile [OF example_well_formed example_cell5 example_cell7, of 1]
    example_well_formed example_cell5 example_cell7
  by (simp add: example_nrows) blast


section \<open>Failure of the feature builder\<close>

lemma and_then_Inl_iff:
  "and_then m f = Inl e \<longleftrightarrow> m = Inl e \<or> (\<exists>x. m = Inr x \<and> f x = Inl e)"
  by (cases m) (simp_all add: and_then_def)

lemma getitem_Inl: "getitem df k = Inl e \<Longrightarrow> e = KeyError"
  by (simp add: getitem_def split: option.splits)

lemma getitem_Inr_colnames: "getitem df k = Inr c \<Longrightarrow> k \<in> set (colnames df)"
  by (auto simp: getitem_def colnames_def split: option.splits dest!: map_of_SomeD intro: rev_image_eqI)

lemma interaction_step_Inl: "interaction_step f1 p1 f2 p2 age df = Inl e \<Longrightarrow> e = KeyError"
  by (auto simp: interaction_step_def and_then_Inl_iff Let_def dest: getitem_Inl)

lemma interaction_loop_Inl: "interaction_loop f1 p1 f2 p2 ages df = Inl e \<Longrightarrow> e = KeyError"
  by (induction ages arbitrary: df) (auto simp: and_then_Inl_iff dest: interaction_step_Inl)

lemma feature_builder_Inl: "feature_builder df = Inl e \<Longrightarrow> e = KeyError"
  by (auto simp: feature_builder_def and_then_Inl_iff dest: interaction_loop_Inl)

text \<open>
  Claim C9. If an indicator column \<open>Age=M a\<close> or \<open>Age=F a\<close> of an age band of the list is
  absent from the input table, the feature builder fails with an error, and so does the
  whole notebook, whatever the library's fit would return: no model is fitted and no
  table with a zero-valued interaction column is produced.
\<close>

theorem missing_indicator_fails:
  assumes "a \<in> set agelist"
    "''Age=M'' @ a \<notin> set (colnames mydata0) \<or> ''Age=F'' @ a \<notin> set (colnames mydata0)"
  shows "feature_builder mydata0 = Inl KeyError \<and> cell5 mydata0 = Inl KeyError \<and>
         notebook lib g mydata0 = Inl KeyError"
proof -
  have "feature_builder mydata0 \<noteq> Inr out" for out
  proof
    assume "feature_builder mydata0 = Inr out"
    from feature_builder_columns [OF this assms(1)]
    have "''Age=M'' @ a \<in> set (colnames mydata0)" "''Age=F'' @ a \<in> set (colnames mydata0)"
      by (auto dest: getitem_Inr_colnames)
    with assms(2) show False by simp
  qed
  then have "feature_builder mydata0 = Inl KeyError"
    by (cases "feature_builder mydata0") (auto dest: feature_builder_Inl)
  then show ?thesis
    by (simp add: cell5_def notebook_def and_then_Inl)
qed

theorem missing_indicator_fails_witness:
  "''85'' \<in> set agelist \<and> ''Age=F85'' \<notin> set (colnames example_incomplete) \<and>
   feature_builder example_incomplete = Inl KeyError \<and>
   notebook example_library 0 example_incomplete = Inl KeyError"
proof -
  have a: "''85'' \<in> set agelist" by (simp add: agelist_def)
  have m: "''Age=F85'' \<notin> set (colnames example_incomplete)"
    by (simp add: colnames_def example_incomplete_def example_table_def)
  from missing_indicator_fails [OF a, of example_incomplete example_library 0] a m
  show ?thesis by simp
qed

section \<open>The split (cell 7)\<close>



section \<open>The predictor sets of the two fits (cell 7)\<close>

lemma colnames_setitem:
  "colnames (setitem df k v) = (if k \<in> set (colnames df) then colnames df else colnames df @ [k])"
  by (simp add: colnames_def setitem_def update_keys)

lemma interaction_step_colnames:
  assumes "interaction_step f1 p1 f2 p2 age df = Inr df'"
    "p1 @ age \<notin> set (colnames df)" "p2 @ age \<notin> set (colnames df)" "p1 @ age \<noteq> p2 @ age"
  shows "colnames df' = colnames df @ [p1 @ age, p2 @ age]"
  using assms(1)
proof (rule interaction_step_Inr)
  fix m f c1 c2
  assume "df' = setitem (setitem df (p1 @ age) (mul_series c1 (add_series m f))) (p2 @ age)
             (mul_series c2 (add_series m f))"
  then show ?thesis using assms(2-4) by (simp add: colnames_setitem)
qed

lemma fresh_labelsD:
  assumes "fresh_labels f1 p1 f2 p2"
  shows "p1 @ a \<noteq> p2 @ b" and "p2 @ b \<noteq> p1 @ a"
    and "a \<noteq> b \<Longrightarrow> p1 @ a \<noteq> p1 @ b" and "a \<noteq> b \<Longrightarrow> p2 @ a \<noteq> p2 @ b"
  using assms unfolding fresh_labels_def by metis+

lemma interaction_loop_colnames:
  "interaction_loop f1 p1 f2 p2 ages df = Inr df' \<Longrightarrow> fresh_labels f1 p1 f2 p2 \<Longrightarrow>
   distinct ages \<Longrightarrow> \<forall>a \<in> set ages. p1 @ a \<notin> set (colnames df) \<and> p2 @ a \<notin> set (colnames df) \<Longrightarrow>
   colnames df' = colnames df @ concat (map (\<lambda>a. [p1 @ a, p2 @ a]) ages)"
proof (induction ages arbitrary: df)
  case Nil
  then show ?case by simp
next
  case (Cons a ages)
  from Cons.prems(1) obtain d1 where
    s: "interaction_step f1 p1 f2 p2 a df = Inr d1" and
    l: "interaction_loop f1 p1 f2 p2 ages d1 = Inr df'"
    by (auto simp: and_then_Inr_iff)
  note fr = fresh_labelsD [OF Cons.prems(2)]
  have c1: "colnames d1 = colnames df @ [p1 @ a, p2 @ a]"
    using interaction_step_colnames [OF s] Cons.prems(4) fr(1) [of a a] by simp
  have "\<forall>b \<in> set ages. p1 @ b \<notin> set (colnames d1) \<and> p2 @ b \<notin> set (colnames d1)"
  proof
    fix b assume b: "b \<in> set ages"
    then have "b \<noteq> a" using Cons.prems(3) by auto
    then have "p1 @ b \<noteq> p1 @ a" "p2 @ b \<noteq> p2 @ a" "p1 @ b \<noteq> p2 @ a" "p2 @ b \<noteq> p1 @ a"
      using fr(3) [of b a] fr(4) [of b a] fr(1) fr(2) by blast+
    with b Cons.prems(4) show "p1 @ b \<notin> set (colnames d1) \<and> p2 @ b \<notin> set (colnames d1)"
      by (simp add: c1)
  qed
  from Cons.IH [OF l Cons.prems(2) _ this] Cons.prems(3) c1 show ?case by simp
qed

lemma feature_builder_colnames:
  assumes "feature_builder df = Inr out" "set (colnames df) \<inter> set interaction_labels = {}"
  shows "colnames out = colnames df @ interaction_labels"
proof -
  from assms(1) obtain d1 where
    l1: "interaction_loop ''Winter'' ''WINT_'' ''Year'' ''IMP_'' agelist df = Inr d1" and
    l2: "interaction_loop ''AF'' ''AF_'' ''VE'' ''VE_'' agelist d1 = Inr out"
    by (auto simp: feature_builder_def and_then_Inr_iff)
  have dist: "distinct agelist" by (simp add: agelist_def)
  have n: "\<forall>l \<in> set interaction_labels. l \<notin> set (colnames df)"
    using assms(2) by blast
  have c1: "colnames d1 = colnames df @ [''WINT_65'', ''IMP_65'', ''WINT_75'', ''IMP_75'', ''WINT_85'', ''IMP_85'']"
    using interaction_loop_colnames [OF l1 fresh_winter dist] n
    by (simp add: agelist_def interaction_labels_def)
  have "colnames out = colnames d1 @ [''AF_65'', ''VE_65'', ''AF_75'', ''VE_75'', ''AF_85'', ''VE_85'']"
    using interaction_loop_colnames [OF l2 fresh_frost dist] n
    by (simp add: agelist_def interaction_labels_def c1)
  with c1 show ?thesis by (simp add: interaction_labels_def)
qed

lemma has_schema_colnames:
  assumes "has_schema df"
  shows "colnames df = base_columns @ drop 9 (colnames df)"
    and "length (drop 9 (colnames df)) = 6"
    and "set (drop 9 (colnames df)) = set indicator_columns"
  using assms append_take_drop_id [of 9 "colnames df"] by (auto simp: has_schema_def)

text \<open>The column labels of \<^verbatim>\<open>X\<close> after cell 5, for a table of the documented shape.\<close>

lemma cell5_colnames:
  assumes "cell5 mydata0 = Inr (mydata, X)" "has_schema mydata0"
  shows "colnames X =
     [''Deaths'', ''Persons'', ''Persons_NoAdj'', ''Rate'', ''Rate_NoAdj'',
      ''PredR'', ''PredD'', ''PredR_Base'', ''PredD_Base''] @
     drop 9 (colnames mydata0) @ interaction_labels"
proof -
  define inds where "inds = drop 9 (colnames mydata0)"
  note sc = has_schema_colnames [OF assms(2), folded inds_def]
  from assms(1) obtain X1 X2 X3 X4 where
    fb: "feature_builder mydata0 = Inr mydata" and
    d: "drop_columns mydata [''VE'', ''Year'', ''Winter'', ''AF''] = Inr X1" and
    i1: "insert_column X1 5 ''PredR'' 0 = Inr X2" and
    i2: "insert_column X2 6 ''PredD'' 0 = Inr X3" and
    i3: "insert_column X3 7 ''PredR_Base'' 0 = Inr X4" and
    i4: "insert_column X4 8 ''PredD_Base'' 0 = Inr X"
    by (auto simp: cell5_def and_then_Inr_iff)
  have "set (colnames mydata0) \<inter> set interaction_labels = {}"
    unfolding sc(1) by (simp add: sc(3) base_columns_def indicator_columns_def interaction_labels_def)
  from feature_builder_colnames [OF fb this]
  have cm: "colnames mydata = base_columns @ inds @ interaction_labels"
    using sc(1) by simp
  have "colnames X1 = filter (\<lambda>n. n \<notin> set [''VE'', ''Year'', ''Winter'', ''AF'']) (colnames mydata)"
    by (simp add: drop_columns_Inr(2) [OF d] colnames_def filter_map comp_def)
  then have c1: "colnames X1 = [''Deaths'', ''Persons'', ''Persons_NoAdj'', ''Rate'', ''Rate_NoAdj''] @
              inds @ interaction_labels"
    unfolding cm
    by (simp add: base_columns_def interaction_labels_def filter_True sc(3) indicator_columns_def)
  have ins: "colnames B = take loc (colnames A) @ name # drop loc (colnames A)"
    if "insert_column A loc name v = Inr B" for A B loc name v
    using insert_column_Inr(2) [OF that] by (simp add: colnames_def take_map drop_map)
  have "colnames X2 = [''Deaths'', ''Persons'', ''Persons_NoAdj'', ''Rate'', ''Rate_NoAdj'',
          ''PredR''] @ inds @ interaction_labels"
    using ins [OF i1] c1 by simp
  then have "colnames X3 = [''Deaths'', ''Persons'', ''Persons_NoAdj'', ''Rate'', ''Rate_NoAdj'',
          ''PredR'', ''PredD''] @ inds @ interaction_labels"
    using ins [OF i2] by simp
  then have "colnames X4 = [''Deaths'', ''Persons'', ''Persons_NoAdj'', ''Rate'', ''Rate_NoAdj'',
          ''PredR'', ''PredD'', ''PredR_Base''] @ inds @ interaction_labels"
    using ins [OF i3] by simp
  then show ?thesis
    using ins [OF i4] by (simp add: inds_def)
qed

lemma colnames_iloc:
  "colnames (iloc_from X a) = drop a (colnames X)"
  "colnames (iloc_range X a b) = take (b - a) (drop a (colnames X))"
  by (simp_all add: colnames_def iloc_from_def iloc_range_def drop_map take_map)

lemma take_rows_Inr:
  assumes "take_rows df idx = Inr df'"
  shows "list_all (\<lambda>i. i < nrows df) idx"
    and "values_of df' = map (\<lambda>c. map ((!) (snd c)) idx) (columns df)"
    and "values_of (iloc_range df' a b) = map (\<lambda>c. map ((!) (snd c)) idx) (columns (iloc_range df a b))"
  using assms
  by (auto simp: take_rows_def values_of_def iloc_range_def comp_def take_map drop_map
      split: if_splits)

lemma train_test_split_Inr:
  assumes "train_test_split lib g X y t (Some seed) = Inr (X_train, X_test, y_train, y_test)"
  obtains train test where "shuffle_split lib (Seeded seed) t (nrows X) = (train, test)"
    "take_rows X train = Inr X_train" "take_rows X test = Inr X_test"
    "take_items y train = Inr y_train" "take_items y test = Inr y_test"
  using assms
  by (auto simp: train_test_split_def and_then_Inr_iff split: prod.splits)

text \<open>
  Claim C6. For a table of the documented shape, the base model's predictors are the
  full model's predictors without the frost-day and vaccine-effectiveness interaction
  columns, a strict subset; and each model is fitted on the values that its predictor
  columns and the target have at the row positions of the training partition.
\<close>

theorem base_predictors_and_training_rows:
  assumes "well_formed mydata0" "has_schema mydata0" "cell5 mydata0 = Inr (mydata, X)"
    "cell7 lib g mydata X = Inr r"
  shows "\<exists>train test y.
     shuffle_split lib (Seeded 10101) (2 / 10) (nrows mydata0) = (train, test) \<and>
     list_all (\<lambda>i. i < nrows mydata0) train \<and>
     getitem X ''Rate'' = Inr y \<and>
     colnames (iloc_from X 9) = drop 9 (colnames mydata0) @
       [''WINT_65'', ''IMP_65'', ''WINT_75'', ''IMP_75'', ''WINT_85'', ''IMP_85'',
        ''AF_65'', ''VE_65'', ''AF_75'', ''VE_75'', ''AF_85'', ''VE_85''] \<and>
     colnames (iloc_range (iloc_from X 9) 0 12) = drop 9 (colnames mydata0) @
       [''WINT_65'', ''IMP_65'', ''WINT_75'', ''IMP_75'', ''WINT_85'', ''IMP_85''] \<and>
     colnames (iloc_range (iloc_from X 9) 0 12) =
       filter (\<lambda>n. n \<notin> {''AF_65'', ''VE_65'', ''AF_75'', ''VE_75'', ''AF_85'', ''VE_85''})
         (colnames (iloc_from X 9)) \<and>
     set (colnames (iloc_range (iloc_from X 9) 0 12)) \<subset> set (colnames (iloc_from X 9)) \<and>
     lr_fit lib (map (\<lambda>c. map ((!) (snd c)) train) (columns (iloc_from X 9)))
       (map ((!) y) train) = Inr (out_model r) \<and>
     lr_fit lib (map (\<lambda>c. map ((!) (snd c)) train) (columns (iloc_range (iloc_from X 9) 0 12)))
       (map ((!) y) train) = Inr (out_model_base r)"
proof -
  define inds where "inds = drop 9 (colnames mydata0)"
  note sc = has_schema_colnames [OF assms(2), folded inds_def]
  note c5 = cell5_Inr [OF assms(3,1)]
  have n: "nrows X = nrows mydata0"
    using c5(5) by (simp add: nrows_def)
  have full: "colnames (iloc_from X 9) = inds @
       [''WINT_65'', ''IMP_65'', ''WINT_75'', ''IMP_75'', ''WINT_85'', ''IMP_85'',
        ''AF_65'', ''VE_65'', ''AF_75'', ''VE_75'', ''AF_85'', ''VE_85'']"
    by (simp add: colnames_iloc cell5_colnames [OF assms(3,2)] inds_def interaction_labels_def)
  have base: "colnames (iloc_range (iloc_from X 9) 0 12) = inds @
       [''WINT_65'', ''IMP_65'', ''WINT_75'', ''IMP_75'', ''WINT_85'', ''IMP_85'']"
    by (simp add: colnames_iloc(2) full sc(2))
  have flt: "colnames (iloc_range (iloc_from X 9) 0 12) =
       filter (\<lambda>n. n \<notin> {''AF_65'', ''VE_65'', ''AF_75'', ''VE_75'', ''AF_85'', ''VE_85''})
         (colnames (iloc_from X 9))"
    unfolding base full by (simp add: filter_True sc(3) indicator_columns_def)
  have m: "''AF_65'' \<in> set (colnames (iloc_from X 9))"
    "''AF_65'' \<notin> set (colnames (iloc_range (iloc_from X 9) 0 12))"
    unfolding base full by (simp_all add: sc(3) indicator_columns_def)
  have "set (colnames (iloc_range (iloc_from X 9) 0 12)) \<subseteq> set (colnames (iloc_from X 9))"
    unfolding flt by (rule filter_is_subset)
  moreover have "set (colnames (iloc_range (iloc_from X 9) 0 12)) \<noteq> set (colnames (iloc_from X 9))"
    using m by (rule_tac notI) simp
  ultimately have sub: "set (colnames (iloc_range (iloc_from X 9) 0 12)) \<subset> set (colnames (iloc_from X 9))"
    by (rule psubsetI)
  from assms(4) show ?thesis
  proof (rule cell7_Inr)
    fix y X_train X_test y_train y_test model model_base
    assume a: "getitem X ''Rate'' = Inr y"
      "train_test_split lib g (iloc_from X 9) y (2 / 10) (Some 10101) =
         Inr (X_train, X_test, y_train, y_test)"
      "lr_fit lib (values_of X_train) y_train = Inr model"
      "lr_fit lib (values_of (iloc_range X_train 0 12)) y_train = Inr model_base"
      "out_model r = model" "out_model_base r = model_base"
    from a(2) obtain train test where
      t: "shuffle_split lib (Seeded 10101) (2 / 10) (nrows (iloc_from X 9)) = (train, test)"
        "take_rows (iloc_from X 9) train = Inr X_train" "take_items y train = Inr y_train"
      by (rule train_test_split_Inr)
    have yt: "y_train = map ((!) y) train"
      using t(3) by (auto simp: take_items_def split: if_splits)
    note tr = take_rows_Inr [OF t(2)]
    show ?thesis
    proof (intro exI conjI)
      show "shuffle_split lib (Seeded 10101) (2 / 10) (nrows mydata0) = (train, test)"
        using t(1) n by simp
      show "list_all (\<lambda>i. i < nrows mydata0) train"
        using tr(1) n by simp
      show "getitem X ''Rate'' = Inr y" by (fact a(1))
      show "colnames (iloc_from X 9) = drop 9 (colnames mydata0) @
         [''WINT_65'', ''IMP_65'', ''WINT_75'', ''IMP_75'', ''WINT_85'', ''IMP_85'',
          ''AF_65'', ''VE_65'', ''AF_75'', ''VE_75'', ''AF_85'', ''VE_85'']"
        using full by (simp only: inds_def)
      show "colnames (iloc_range (iloc_from X 9) 0 12) = drop 9 (colnames mydata0) @
         [''WINT_65'', ''IMP_65'', ''WINT_75'', ''IMP_75'', ''WINT_85'', ''IMP_85'']"
        using base by (simp only: inds_def)
      show "colnames (iloc_range (iloc_from X 9) 0 12) =
         filter (\<lambda>n. n \<notin> {''AF_65'', ''VE_65'', ''AF_75'', ''VE_75'', ''AF_85'', ''VE_85''})
           (colnames (iloc_from X 9))" by (fact flt)
      show "set (colnames (iloc_range (iloc_from X 9) 0 12)) \<subset> set (colnames (iloc_from X 9))"
        by (fact sub)
      show "lr_fit lib (map (\<lambda>c. map ((!) (snd c)) train) (columns (iloc_from X 9)))
         (map ((!) y) train) = Inr (out_model r)"
        using a(3,5) unfolding tr(2) yt by simp
      show "lr_fit lib (map (\<lambda>c. map ((!) (snd c)) train) (columns (iloc_range (iloc_from X 9) 0 12)))
         (map ((!) y) train) = Inr (out_model_base r)"
        using a(4,6) unfolding tr(3) yt by simp
    qed
  qed
qed

lemma example_has_schema: "has_schema example_table"
  by (simp add: has_schema_def colnames_def example_table_def base_columns_def indicator_columns_def)

theorem base_predictors_and_training_rows_witness:
  "well_formed example_table \<and> has_schema example_table \<and>
   cell5 example_table = Inr (example_mydata, example_X) \<and>
   cell7 example_library 0 example_mydata example_X = Inr example_run \<and>
   (\<exists>train test y.
     shuffle_split example_library (Seeded 10101) (2 / 10) (nrows example_table) = (train, test) \<and>
     list_all (\<lambda>i. i < nrows example_table) train \<and>
     getitem example_X ''Rate'' = Inr y \<and>
     colnames (iloc_from example_X 9) = drop 9 (colnames example_table) @
       [''WINT_65'', ''IMP_65'', ''WINT_75'', ''IMP_75'', ''WINT_85'', ''IMP_85'',
        ''AF_65'', ''VE_65'', ''AF_75'', ''VE_75'', ''AF_85'', ''VE_85''] \<and>
     colnames (iloc_range (iloc_from example_X 9) 0 12) = drop 9 (colnames example_table) @
       [''WINT_65'', ''IMP_65'', ''WINT_75'', ''IMP_75'', ''WINT_85'', ''IMP_85''] \<and>
     colnames (iloc_range (iloc_from example_X 9) 0 12) =
       filter (\<lambda>n. n \<notin> {''AF_65'', ''VE_65'', ''AF_75'', ''VE_75'', ''AF_85'', ''VE_85''})
         (colnames (iloc_from example_X 9)) \<and>
     set (colnames (iloc_range (iloc_from example_X 9) 0 12)) \<subset> set (colnames (iloc_from example_X 9)) \<and>
     lr_fit example_library (map (\<lambda>c. map ((!) (snd c)) train) (columns (iloc_from example_X 9)))
       (map ((!) y) train) = Inr (out_model example_run) \<and>
     lr_fit example_library
       (map (\<lambda>c. map ((!) (snd c)) train) (columns (iloc_range (iloc_from example_X 9) 0 12)))
       (map ((!) y) train) = Inr (out_model_base example_run))"
  by (intro conjI example_well_formed example_has_schema example_cell5 example_cell7
      base_predictors_and_training_rows
        [OF example_well_formed example_has_schema example_cell5 example_cell7])

section \<open>The predictors of the cross-validation (cell 7)\<close>

lemma cell5_placeholders:
  assumes "cell5 mydata0 = Inr (mydata, X)"
  shows "\<exists>c1. 5 \<le> length c1 \<and>
           colnames X = take 5 c1 @ [''PredR'', ''PredD'', ''PredR_Base'', ''PredD_Base''] @ drop 5 c1"
proof -
  from assms obtain X1 X2 X3 X4 where
    i1: "insert_column X1 5 ''PredR'' 0 = Inr X2" and
    i2: "insert_column X2 6 ''PredD'' 0 = Inr X3" and
    i3: "insert_column X3 7 ''PredR_Base'' 0 = Inr X4" and
    i4: "insert_column X4 8 ''PredD_Base'' 0 = Inr X"
    by (auto simp: cell5_def and_then_Inr_iff)
  have ins: "colnames B = take loc (colnames A) @ name # drop loc (colnames A)"
    if "insert_column A loc name v = Inr B" for A B loc name v
    using insert_column_Inr(2) [OF that] by (simp add: colnames_def take_map drop_map)
  define c1 where "c1 = colnames X1"
  have l: "5 \<le> length c1"
    using insert_column_Inr(4) [OF i1] by (simp add: c1_def colnames_def)
  then have lt: "length (take 5 c1) = 5" by simp
  have "colnames X2 = take 5 c1 @ [''PredR''] @ drop 5 c1"
    using ins [OF i1] by (simp add: c1_def)
  then have "colnames X3 = take 5 c1 @ [''PredR'', ''PredD''] @ drop 5 c1"
    using ins [OF i2] lt by simp
  then have "colnames X4 = take 5 c1 @ [''PredR'', ''PredD'', ''PredR_Base''] @ drop 5 c1"
    using ins [OF i3] lt by simp
  then have "colnames X = take 5 c1 @ [''PredR'', ''PredD'', ''PredR_Base'', ''PredD_Base''] @ drop 5 c1"
    using ins [OF i4] lt by simp
  with l show ?thesis by blast
qed

lemma colnames_filter_rows: "colnames (filter_rows df sel) = colnames df"
  by (simp add: colnames_def filter_rows_def comp_def)

text \<open>
  Claim C4. The models are fitted on the columns of \<^verbatim>\<open>X\<close> from position 9 on (the full
  model) and on the first twelve of those (the base model). The cross-validation of
  the full model takes the columns from position 7 on instead: the full model's
  predictors and, before them, the base model's two prediction columns. That of the
  base model takes the columns 7 to 18: the same two columns and the first ten of the
  base model's twelve predictors. So neither cross-validation runs over its model's own
  predictor set.
\<close>

theorem cross_validation_predictors:
  assumes "cell5 mydata0 = Inr (mydata, X)" "cell7 lib g mydata X = Inr r"
  shows "colnames (cv_full_predictors (filter_rows (out_X r) sel)) =
           ''PredR_Base'' # ''PredD_Base'' # colnames (iloc_from X 9) \<and>
         colnames (cv_base_predictors (filter_rows (out_X r) sel)) =
           ''PredR_Base'' # ''PredD_Base'' # take 10 (colnames (iloc_range (iloc_from X 9) 0 12))"
proof -
  from cell5_placeholders [OF assms(1)] obtain c1 where
    l: "5 \<le> length c1" and
    c: "colnames X = take 5 c1 @ [''PredR'', ''PredD'', ''PredR_Base'', ''PredD_Base''] @ drop 5 c1"
    by blast
  from l have lt: "min (length c1) 5 = 5" by simp
  from assms(2) have "colnames (out_X r) = colnames X"
  proof (rule cell7_Inr)
    fix predr persons predr_base
    assume "out_X r = setitem (setitem (setitem (setitem X ''PredR'' predr) ''PredD''
                 (to_deaths persons predr)) ''PredR_Base'' predr_base) ''PredD_Base''
                 (to_deaths persons predr_base)"
    then show ?thesis by (simp add: colnames_setitem c)
  qed
  then have n: "colnames (filter_rows (out_X r) sel) =
      take 5 c1 @ [''PredR'', ''PredD'', ''PredR_Base'', ''PredD_Base''] @ drop 5 c1"
    by (simp add: colnames_filter_rows c)
  have 9: "colnames (iloc_from X 9) = drop 5 c1"
    by (simp add: colnames_iloc c lt)
  have 7: "colnames (cv_full_predictors (filter_rows (out_X r) sel)) =
             ''PredR_Base'' # ''PredD_Base'' # drop 5 c1"
    by (simp add: cv_full_predictors_def colnames_iloc n lt)
  have "colnames (cv_base_predictors (filter_rows (out_X r) sel)) =
          take 12 (''PredR_Base'' # ''PredD_Base'' # drop 5 c1)"
    using 7 by (simp add: cv_base_predictors_def cv_full_predictors_def colnames_iloc)
  also have "\<dots> = ''PredR_Base'' # ''PredD_Base'' # take 10 (drop 5 c1)"
    by simp
  also have "take 10 (drop 5 c1) = take 10 (colnames (iloc_range (iloc_from X 9) 0 12))"
    by (simp add: colnames_iloc(2) 9 min_def)
  finally show ?thesis using 7 9 by simp
qed

theorem cross_validation_predictors_witness:
  "cell5 example_table = Inr (example_mydata, example_X) \<and>
   cell7 example_library 0 example_mydata example_X = Inr example_run \<and>
   colnames (iloc_from example_X 9) =
     [''Age=M65'', ''Age=M75'', ''Age=M85'', ''Age=F65'', ''Age=F75'', ''Age=F85'',
      ''WINT_65'', ''IMP_65'', ''WINT_75'', ''IMP_75'', ''WINT_85'', ''IMP_85'',
      ''AF_65'', ''VE_65'', ''AF_75'', ''VE_75'', ''AF_85'', ''VE_85''] \<and>
   colnames (iloc_range (iloc_from example_X 9) 0 12) =
     [''Age=M65'', ''Age=M75'', ''Age=M85'', ''Age=F65'', ''Age=F75'', ''Age=F85'',
      ''WINT_65'', ''IMP_65'', ''WINT_75'', ''IMP_75'', ''WINT_85'', ''IMP_85''] \<and>
   age_mask (out_X example_run) ''65'' = Inr [True, True, False, True] \<and>
   colnames (cv_full_predictors (filter_rows (out_X example_run) [True, True, False, True])) =
     [''PredR_Base'', ''PredD_Base'',
      ''Age=M65'', ''Age=M75'', ''Age=M85'', ''Age=F65'', ''Age=F75'', ''Age=F85'',
      ''WINT_65'', ''IMP_65'', ''WINT_75'', ''IMP_75'', ''WINT_85'', ''IMP_85'',
      ''AF_65'', ''VE_65'', ''AF_75'', ''VE_75'', ''AF_85'', ''VE_85''] \<and>
   colnames (cv_base_predictors (filter_rows (out_X example_run) [True, True, False, True])) =
     [''PredR_Base'', ''PredD_Base'',
      ''Age=M65'', ''Age=M75'', ''Age=M85'', ''Age=F65'', ''Age=F75'', ''Age=F85'',
      ''WINT_65'', ''IMP_65'', ''WINT_75'', ''IMP_75'']"
proof -
  have f: "colnames (iloc_from example_X 9) =
     [''Age=M65'', ''Age=M75'', ''Age=M85'', ''Age=F65'', ''Age=F75'', ''Age=F85'',
      ''WINT_65'', ''IMP_65'', ''WINT_75'', ''IMP_75'', ''WINT_85'', ''IMP_85'',
      ''AF_65'', ''VE_65'', ''AF_75'', ''VE_75'', ''AF_85'', ''VE_85'']"
    by (simp add: colnames_def iloc_from_def example_X_def)
  have b: "colnames (iloc_range (iloc_from example_X 9) 0 12) =
     [''Age=M65'', ''Age=M75'', ''Age=M85'', ''Age=F65'', ''Age=F75'', ''Age=F85'',
      ''WINT_65'', ''IMP_65'', ''WINT_75'', ''IMP_75'', ''WINT_85'', ''IMP_85'']"
    by (simp add: colnames_def iloc_from_def iloc_range_def example_X_def)
  have m: "age_mask (out_X example_run) ''65'' = Inr [True, True, False, True]"
    by (simp add: age_mask_def and_then_def getitem_def example_run_def)
  from cross_validation_predictors [OF example_cell5 example_cell7, of "[True, True, False, True]"]
  show ?thesis
    unfolding f b using example_cell5 example_cell7 f b m by simp
qed


section \<open>Row selection and grouping\<close>

lemma map_of_map_snd:
  "map_of (map (\<lambda>c. (fst c, f (snd c))) al) k = map_option f (map_of al k)"
  by (induction al) auto

lemma getitem_filter_rows:
  "getitem (filter_rows df sel) k =
     (case getitem df k of Inl e \<Rightarrow> Inl e | Inr c \<Rightarrow> Inr (map fst (filter snd (zip c sel))))"
  by (simp add: getitem_def filter_rows_def
      map_of_map_snd [where f = "\<lambda>c. map fst (filter snd (zip c sel))"] split: option.splits)

lemma index_filter_rows: "index (filter_rows df sel) = map fst (filter snd (zip (index df) sel))"
  by (simp add: filter_rows_def)

lemma getitem_groupby:
  "getitem (groupby_index_sum df) k =
     (case getitem df k of Inl e \<Rightarrow> Inl e
      | Inr c \<Rightarrow> Inr (map (group_sum (index df) c) (sort (remdups (index df)))))"
  by (simp add: getitem_def groupby_index_sum_def Let_def
      map_of_map_snd [where f = "\<lambda>c. map (group_sum (index df) c) (sort (remdups (index df)))"]
      split: option.splits)

lemma index_groupby: "index (groupby_index_sum df) = sort (remdups (index df))"
  by (simp add: groupby_index_sum_def Let_def)

lemma index_labelled: "fst (labelled df s) = index df"
  by (simp add: labelled_def)

lemma ex_idx: "index (out_X example_run) = [(2011, 2, 28), (2011, 2, 28), (2011, 2, 28), (2011, 5, 31)]"
  "index (out_X_cont example_run) = [(2011, 2, 28), (2011, 2, 28), (2011, 2, 28), (2011, 5, 31)]"
  by (simp_all add: example_run_def)

lemma ex_cols:
  "getitem (out_X example_run) ''Deaths'' = Inr [10, 12, 30, 8]"
  "getitem (out_X example_run) ''Persons'' = Inr [1000, 1100, 500, 1000]"
  "getitem (out_X example_run) ''PredD'' = Inr [95 / 52, 209 / 104, 95 / 104, 69 / 52]"
  "getitem (out_X example_run) ''PredD_Base'' = Inr [5 / 52, 11 / 104, 5 / 104, 1 / 13]"
  "getitem (out_X example_run) ''Age=M65'' = Inr [1, 0, 0, 1]"
  "getitem (out_X example_run) ''Age=M75'' = Inr [0, 0, 1, 0]"
  "getitem (out_X example_run) ''Age=M85'' = Inr [0, 0, 0, 0]"
  "getitem (out_X example_run) ''Age=F65'' = Inr [0, 1, 0, 0]"
  "getitem (out_X example_run) ''Age=F75'' = Inr [0, 0, 0, 0]"
  "getitem (out_X example_run) ''Age=F85'' = Inr [0, 0, 0, 0]"
  "getitem (out_X_cont example_run) ''AF_65'' = Inr [15 / 26, 33 / 52, 0, 5 / 52]"
  "getitem (out_X_cont example_run) ''VE_65'' = Inr [15 / 13, 33 / 26, 0, 15 / 13]"
  "getitem (out_X_cont example_run) ''AF_75'' = Inr [0, 0, 15 / 52, 0]"
  "getitem (out_X_cont example_run) ''VE_75'' = Inr [0, 0, 15 / 26, 0]"
  "getitem (out_X_cont example_run) ''AF_85'' = Inr [0, 0, 0, 0]"
  "getitem (out_X_cont example_run) ''VE_85'' = Inr [0, 0, 0, 0]"
  by (simp_all add: getitem_def example_run_def)

lemma ex_sort: "sort (remdups [(2011, 2, 28), (2011, 2, 28), (2011, 2, 28), (2011 :: nat, 5 :: nat, 31 :: nat)]) = [(2011, 2, 28), (2011, 5, 31)]"
  "sort (remdups [(2011, 2, 28), (2011, 2, 28), (2011 :: nat, 5 :: nat, 31 :: nat)]) = [(2011, 2, 28), (2011, 5, 31)]"
  "sort (remdups [(2011, 2, 28), (2011 :: nat, 2 :: nat, 28 :: nat)]) = [(2011, 2, 28)]"
  "sort (remdups [(2011, 2, 28), (2011, 2, 28), (2011 :: nat, 2 :: nat, 28 :: nat)]) = [(2011, 2, 28)]"
  "sort [(2011 :: nat, 2 :: nat, 28 :: nat)] = [(2011, 2, 28)]"
  "sort [(2011, 2, 28), (2011 :: nat, 5 :: nat, 31 :: nat)] = [(2011, 2, 28), (2011, 5, 31)]"
  by (simp_all add: less_eq_prod_def)



lemma upt4: "[0..<4] = [0, 1, 2, 3]"
  by (simp add: upt_rec numeral_nat)

lemma rep10: "replicate 10 [] = [[], [], [], [], [], [], [], [], [], []]"
  by (simp add: eval_nat_numeral)


lemma example_cell9: "cell9 (out_X example_run) (out_X_cont example_run) = Inr example_plots"
  unfolding cell9_def upt4 rep10
  by (simp add: cell9_step_def age_views_def rate_view_def and_then_def
      getitem_groupby getitem_filter_rows index_groupby index_filter_rows ex_cols ex_idx ex_sort
      age_mask_def group_sum_def month_mask_def month_def float_div_def rate_series_def
      labelled_def dict_update_def sub_series_def agelist_def agedesc_def Let_def example_plots_def)

section \<open>The winter-quarter views (cell 9)\<close>

lemma length_dict_update [simp]: "length (dict_update dfd k key s) = length dfd"
  by (simp add: dict_update_def)

lemma nth_dict_update:
  "dict_update dfd k key s ! j =
     (if j = k \<and> k < length dfd then AList.update key s (dfd ! k) else dfd ! j)"
  by (cases "k < length dfd") (auto simp: dict_update_def nth_list_update list_update_beyond)

lemma age_views_Inr:
  assumes "age_views X X_cont i dfd = Inr (Xg, dfd')"
  obtains sel deaths predd wdeaths wbase wpredd caf cve where
    "age_mask X (agelist ! i) = Inr sel" "Xg = groupby_index_sum (filter_rows X sel)"
    "dfd' =
       dict_update (dict_update (dict_update (dict_update (dict_update (dict_update dfd
         0 (''Actual - Age '' @ agedesc ! i) (labelled Xg deaths))
         1 (''Unexplained - Age '' @ agedesc ! i) (labelled Xg (sub_series deaths predd)))
         2 (''Actual - Age '' @ agedesc ! i)
           (labelled (groupby_index_sum (filter_rows Xg (month_mask Xg 2))) (sub_series wdeaths wbase)))
         3 (''Unexplained - Age '' @ agedesc ! i)
           (labelled (groupby_index_sum (filter_rows Xg (month_mask Xg 2))) (sub_series wdeaths wpredd)))
         4 (''Contribution - AF '' @ agedesc ! i)
           (labelled (groupby_index_sum (filter_rows X_cont (month_mask X_cont 2))) caf))
         5 (''Contribution - VE '' @ agedesc ! i)
           (labelled (groupby_index_sum (filter_rows X_cont (month_mask X_cont 2))) cve)"
  using assms unfolding age_views_def Let_def by (auto simp: and_then_Inr_iff)

lemma cell9_step_Inr:
  assumes "cell9_step X X_cont i dfd = Inr dfd'"
  obtains Xg dfd1 d where
    "if i < 3 then age_views X X_cont i dfd = Inr (Xg, dfd1)
     else Xg = groupby_index_sum X \<and> dfd1 = dfd"
    "rate_view Xg i = Inr d" "dfd' = dfd1[i + 6 := d]"
  using assms unfolding cell9_step_def
  by (auto simp: and_then_Inr_iff split: if_splits)

lemma filter_by_own_mask: "map fst (filter snd (zip xs (map P xs))) = filter P xs"
  by (induction xs) auto

lemma winter_index:
  "d \<in> set (index (groupby_index_sum (filter_rows df (month_mask df m)))) \<Longrightarrow> month d = m"
  by (simp add: index_groupby index_filter_rows month_mask_def filter_by_own_mask)

lemma winter_labelled:
  "list_all (\<lambda>d. month d = m)
     (fst (labelled (groupby_index_sum (filter_rows df (month_mask df m))) s))"
  by (simp add: index_labelled list_all_iff winter_index)

lemma list_all_update:
  "list_all P al \<Longrightarrow> P (k, v) \<Longrightarrow> list_all P (AList.update k v al)"
  using set_update_subset [of k v al] by (auto simp: list_all_iff)

lemma age_views_winter_only:
  assumes "age_views X X_cont i dfd = Inr (Xg, dfd')" "winter_only dfd"
  shows "winter_only dfd'"
  using assms(1)
proof (rule age_views_Inr)
  fix sel deaths predd wdeaths wbase wpredd caf cve
  assume "dfd' =
       dict_update (dict_update (dict_update (dict_update (dict_update (dict_update dfd
         0 (''Actual - Age '' @ agedesc ! i) (labelled Xg deaths))
         1 (''Unexplained - Age '' @ agedesc ! i) (labelled Xg (sub_series deaths predd)))
         2 (''Actual - Age '' @ agedesc ! i)
           (labelled (groupby_index_sum (filter_rows Xg (month_mask Xg 2))) (sub_series wdeaths wbase)))
         3 (''Unexplained - Age '' @ agedesc ! i)
           (labelled (groupby_index_sum (filter_rows Xg (month_mask Xg 2))) (sub_series wdeaths wpredd)))
         4 (''Contribution - AF '' @ agedesc ! i)
           (labelled (groupby_index_sum (filter_rows X_cont (month_mask X_cont 2))) caf))
         5 (''Contribution - VE '' @ agedesc ! i)
           (labelled (groupby_index_sum (filter_rows X_cont (month_mask X_cont 2))) cve)"
  then show ?thesis
    using assms(2)
    by (simp add: winter_only_def nth_dict_update list_all_update winter_labelled)
qed

lemma cell9_step_winter_only:
  assumes "cell9_step X X_cont i dfd = Inr dfd'" "winter_only dfd"
  shows "winter_only dfd'"
  using assms(1)
proof (rule cell9_step_Inr)
  fix Xg dfd1 d
  assume a: "if i < 3 then age_views X X_cont i dfd = Inr (Xg, dfd1)
     else Xg = groupby_index_sum X \<and> dfd1 = dfd" "dfd' = dfd1[i + 6 := d]"
  have "winter_only dfd1"
    using a(1) assms(2) age_views_winter_only by (auto split: if_splits)
  then show ?thesis
    by (simp add: a(2) winter_only_def nth_list_update)
qed

lemma cell9_loop_winter_only:
  "cell9_loop X X_cont rest dfd = Inr dfd' \<Longrightarrow> winter_only dfd \<Longrightarrow> winter_only dfd'"
proof (induction rest arbitrary: dfd)
  case Nil
  then show ?case by simp
next
  case (Cons i rest)
  then show ?case
    by (auto simp: and_then_Inr_iff dest: cell9_step_winter_only)
qed

lemma cell9_winter_only: "cell9 X X_cont = Inr dfd \<Longrightarrow> winter_only dfd"
  unfolding cell9_def rep10 by (erule cell9_loop_winter_only) (simp add: winter_only_def)

text \<open>
  Claim C8. Every entry of a winter-quarter-only aggregated series, the series of the
  dictionaries 2 to 5, has a date index whose month is 2, the month in which the winter
  quarter ends; no other date appears there.
\<close>

theorem winter_views_only_winter:
  assumes "cell9 X X_cont = Inr dfd" "k \<in> {2, 3, 4, 5}" "(label, dates, vals) \<in> set (dfd ! k)"
    "d \<in> set dates"
  shows "month d = 2"
proof -
  have "list_all (\<lambda>e. list_all (\<lambda>d. month d = 2) (fst (snd e))) (dfd ! k)"
    using cell9_winter_only [OF assms(1)] assms(2) by (auto simp: winter_only_def)
  with assms(3,4) show ?thesis
    by (auto simp: list_all_iff)
qed

theorem winter_views_only_winter_witness:
  "cell9 (out_X example_run) (out_X_cont example_run) = Inr example_plots \<and>
   (4 :: nat) \<in> {2, 3, 4, 5} \<and>
   (''Contribution - AF 65-74'', [(2011, 2, 28)], [Some (63 / 52)]) \<in> set (example_plots ! 4) \<and>
   (2011, 2, 28) \<in> set [(2011 :: nat, 2 :: nat, 28 :: nat)] \<and> month (2011, 2, 28) = 2"
proof -
  have k: "(4 :: nat) \<in> {2, 3, 4, 5}" by simp
  have e: "(''Contribution - AF 65-74'', [(2011, 2, 28)], [Some (63 / 52)]) \<in> set (example_plots ! 4)"
    by (simp add: example_plots_def)
  have d: "(2011, 2, 28) \<in> set [(2011 :: nat, 2 :: nat, 28 :: nat)]" by simp
  from winter_views_only_winter [OF example_cell9 k e d] example_cell9 k e d
  show ?thesis by blast
qed


section \<open>Sums over the rows of a group\<close>

lemma zip_as_map_upt:
  "length xs = length ys \<Longrightarrow> zip xs ys = map (\<lambda>i. (xs ! i, ys ! i)) [0..<length xs]"
  by (rule nth_equalityI) simp_all

lemma zip_map_same: "zip (map f js) (map g js) = map (\<lambda>j. (f j, g j)) js"
  by (induction js) auto

lemma map2_map_same: "map2 f (map g js) (map h js) = map (\<lambda>j. f (g j) (h j)) js"
  by (induction js) auto

lemma select_by_mask:
  assumes "length c = length sel"
  shows "map fst (filter snd (zip c sel)) = map ((!) c) (filter ((!) sel) [0..<length c])"
  unfolding zip_as_map_upt [OF assms] by (simp add: filter_map comp_def)

lemma group_sum_selected:
  assumes "length (idx :: date list) = length sel" "length (c :: real list) = length sel"
  shows "group_sum (map fst (filter snd (zip idx sel))) (map fst (filter snd (zip c sel))) k =
           sum_where (\<lambda>r. sel ! r \<and> idx ! r = k) c"
proof -
  have "group_sum (map fst (filter snd (zip idx sel))) (map fst (filter snd (zip c sel))) k =
          sum_list (map snd (filter (\<lambda>r. fst r = k)
            (map (\<lambda>j. (idx ! j, c ! j)) (filter ((!) sel) [0..<length sel]))))"
    unfolding group_sum_def select_by_mask [OF assms(1)] select_by_mask [OF assms(2)] assms
    by (simp only: zip_map_same)
  also have "\<dots> = sum_list (map ((!) c) (filter (\<lambda>r. sel ! r \<and> idx ! r = k) [0..<length sel]))"
    by (simp add: filter_map comp_def)
  finally show ?thesis
    by (simp add: sum_where_def assms(2))
qed

lemma group_sum_all:
  assumes "length (idx :: date list) = length (c :: real list)"
  shows "group_sum idx c k = sum_where (\<lambda>r. idx ! r = k) c"
proof -
  have "group_sum idx c k =
          sum_list (map snd (filter (\<lambda>r. fst r = k) (map (\<lambda>j. (idx ! j, c ! j)) [0..<length c])))"
    unfolding group_sum_def zip_as_map_upt [OF assms] assms by (rule refl)
  also have "\<dots> = sum_list (map ((!) c) (filter (\<lambda>r. idx ! r = k) [0..<length c]))"
    by (simp add: filter_map comp_def)
  finally show ?thesis
    by (simp add: sum_where_def)
qed

lemma age_mask_Inr:
  assumes "age_mask X a = Inr sel"
  obtains m f where "getitem X (''Age=M'' @ a) = Inr m" "getitem X (''Age=F'' @ a) = Inr f"
    "sel = map2 (\<lambda>a b. a = 1 \<or> b = 1) m f"
  using assms by (auto simp: age_mask_def and_then_Inr_iff)

lemma age_mask_length:
  assumes "age_mask X a = Inr sel" "well_formed X"
  shows "length sel = nrows X"
  using assms(1)
proof (rule age_mask_Inr)
  fix m f
  assume "getitem X (''Age=M'' @ a) = Inr m" "getitem X (''Age=F'' @ a) = Inr f"
    "sel = map2 (\<lambda>a b. a = 1 \<or> b = 1) m f"
  then show ?thesis
    using getitem_length [OF assms(2), of _ m] getitem_length [OF assms(2), of _ f] by simp
qed

section \<open>The rate views (cell 9)\<close>

lemma rate_view_Inr:
  assumes "rate_view Xg i = Inr d"
  obtains deaths persons predd where
    "getitem Xg ''Deaths'' = Inr deaths" "getitem Xg ''Persons'' = Inr persons"
    "getitem Xg ''PredD'' = Inr predd"
    "d = [(''Actual - Age '' @ agedesc ! i, (index Xg, rate_series deaths persons)),
          (''Predicted - Age '' @ agedesc ! i, (index Xg, rate_series predd persons))]"
  using assms by (auto simp: rate_view_def and_then_Inr_iff)

lemma age_views_keeps:
  assumes "age_views X X_cont i dfd = Inr (Xg, dfd')"
  shows "length dfd' = length dfd" and "6 \<le> k \<Longrightarrow> dfd' ! k = dfd ! k"
    and "\<exists>sel. age_mask X (agelist ! i) = Inr sel \<and> Xg = groupby_index_sum (filter_rows X sel)"
  using assms by (auto elim!: age_views_Inr simp: nth_dict_update)

lemma cell9_step_keeps:
  assumes "cell9_step X X_cont j dfd = Inr dfd'"
  shows "length dfd' = length dfd" and "6 \<le> k \<Longrightarrow> k \<noteq> j + 6 \<Longrightarrow> dfd' ! k = dfd ! k"
  using assms
  by (auto elim!: cell9_step_Inr simp: age_views_keeps(1,2) split: if_splits)

lemma cell9_step_entry:
  assumes "cell9_step X X_cont i dfd = Inr dfd'" "i < 3" "length dfd = 10"
  shows "\<exists>sel. age_mask X (agelist ! i) = Inr sel \<and>
           rate_view (groupby_index_sum (filter_rows X sel)) i = Inr (dfd' ! (i + 6))"
  using assms(1)
proof (rule cell9_step_Inr)
  fix Xg dfd1 d
  assume a: "if i < 3 then age_views X X_cont i dfd = Inr (Xg, dfd1)
     else Xg = groupby_index_sum X \<and> dfd1 = dfd" "rate_view Xg i = Inr d" "dfd' = dfd1[i + 6 := d]"
  from a(1) assms(2) have v: "age_views X X_cont i dfd = Inr (Xg, dfd1)" by simp
  have "length dfd1 = 10" using age_views_keeps(1) [OF v] assms(3) by simp
  then have "dfd' ! (i + 6) = d" using a(3) assms(2) by simp
  with age_views_keeps(3) [OF v] a(2) show ?thesis by auto
qed

lemma cell9_loop_keeps:
  "cell9_loop X X_cont rest dfd = Inr dfd' \<Longrightarrow> 6 \<le> k \<Longrightarrow> \<forall>j \<in> set rest. k \<noteq> j + 6 \<Longrightarrow>
   dfd' ! k = dfd ! k"
proof (induction rest arbitrary: dfd)
  case Nil
  then show ?case by simp
next
  case (Cons j rest)
  from Cons.prems(1) obtain dfd1 where
    s: "cell9_step X X_cont j dfd = Inr dfd1" and l: "cell9_loop X X_cont rest dfd1 = Inr dfd'"
    by (auto simp: and_then_Inr_iff)
  have "dfd' ! k = dfd1 ! k" using Cons.IH [OF l Cons.prems(2)] Cons.prems(3) by simp
  also have "\<dots> = dfd ! k" using cell9_step_keeps(2) [OF s Cons.prems(2)] Cons.prems(3) by simp
  finally show ?case .
qed

lemma cell9_loop_entry:
  "cell9_loop X X_cont rest dfd = Inr dfd' \<Longrightarrow> length dfd = 10 \<Longrightarrow> distinct rest \<Longrightarrow>
   i \<in> set rest \<Longrightarrow> i < 3 \<Longrightarrow>
   \<exists>sel. age_mask X (agelist ! i) = Inr sel \<and>
         rate_view (groupby_index_sum (filter_rows X sel)) i = Inr (dfd' ! (i + 6))"
proof (induction rest arbitrary: dfd)
  case Nil
  then show ?case by simp
next
  case (Cons j rest)
  from Cons.prems(1) obtain dfd1 where
    s: "cell9_step X X_cont j dfd = Inr dfd1" and l: "cell9_loop X X_cont rest dfd1 = Inr dfd'"
    by (auto simp: and_then_Inr_iff)
  have len: "length dfd1 = 10" using cell9_step_keeps(1) [OF s] Cons.prems(2) by simp
  show ?case
  proof (cases "i = j")
    case True
    then have "\<forall>j' \<in> set rest. i + 6 \<noteq> j' + 6" using Cons.prems(3) by auto
    then have "dfd' ! (i + 6) = dfd1 ! (i + 6)"
      using cell9_loop_keeps [OF l, of "i + 6"] by simp
    with cell9_step_entry [OF s [folded True] Cons.prems(5,2)] show ?thesis by simp
  next
    case False
    with Cons.prems(3,4) have "distinct rest" "i \<in> set rest" by auto
    from Cons.IH [OF l len this Cons.prems(5)] show ?thesis .
  qed
qed

lemma cell9_entry:
  assumes "cell9 X X_cont = Inr dfd" "i < 3"
  shows "\<exists>sel. age_mask X (agelist ! i) = Inr sel \<and>
           rate_view (groupby_index_sum (filter_rows X sel)) i = Inr (dfd ! (i + 6))"
proof -
  have "i \<in> set [0, 1, 2, 3 :: nat]" using assms(2) by auto
  from cell9_loop_entry [OF assms(1) [unfolded cell9_def upt4 rep10] _ _ this assms(2)]
  show ?thesis by simp
qed

lemma rate_series_grouped:
  "rate_series (map (group_sum idx dc) keys) (map (group_sum idx pc) keys) =
     map (\<lambda>d. if group_sum idx pc d = 0 then None
              else Some (group_sum idx dc d / group_sum idx pc d * 1000 * 52)) keys"
  by (simp add: rate_series_def map2_map_same float_div_def)

text \<open>
  Claim C7. For every age band and every date of the band's rows, the aggregator's
  derived rate, the series \<open>Actual - Age ...\<close> of the band's rate dictionary, is the sum
  of \<open>Deaths\<close> over the band's sex-split rows of that date divided by the sum of their
  \<open>Persons\<close>, times 1000, times 52 (and not a finite number where that sum of populations
  is 0).
\<close>

theorem aggregated_rate:
  assumes "well_formed X" "cell9 X X_cont = Inr dfd" "i < 3"
  shows "\<exists>sel deaths persons.
     age_mask X (agelist ! i) = Inr sel \<and>
     getitem X ''Deaths'' = Inr deaths \<and> getitem X ''Persons'' = Inr persons \<and>
     map_of (dfd ! (i + 6)) (''Actual - Age '' @ agedesc ! i) =
       Some (sort (remdups (map fst (filter snd (zip (index X) sel)))),
             map (\<lambda>d. if band_date_total X sel persons d = 0 then None
                      else Some (band_date_total X sel deaths d / band_date_total X sel persons d
                                 * 1000 * 52))
               (sort (remdups (map fst (filter snd (zip (index X) sel))))))"
proof -
  from cell9_entry [OF assms(2,3)] obtain sel where
    sel: "age_mask X (agelist ! i) = Inr sel" and
    rv: "rate_view (groupby_index_sum (filter_rows X sel)) i = Inr (dfd ! (i + 6))"
    by blast
  have ls: "length sel = nrows X" using age_mask_length [OF sel assms(1)] .
  from rv show ?thesis
  proof (rule rate_view_Inr)
    fix dg pg predd
    assume g: "getitem (groupby_index_sum (filter_rows X sel)) ''Deaths'' = Inr dg"
      "getitem (groupby_index_sum (filter_rows X sel)) ''Persons'' = Inr pg"
      and d: "dfd ! (i + 6) =
        [(''Actual - Age '' @ agedesc ! i,
          (index (groupby_index_sum (filter_rows X sel)), rate_series dg pg)),
         (''Predicted - Age '' @ agedesc ! i,
          (index (groupby_index_sum (filter_rows X sel)), rate_series predd pg))]"
    from g obtain deaths persons where
      c: "getitem X ''Deaths'' = Inr deaths" "getitem X ''Persons'' = Inr persons" and
      dg: "dg = map (group_sum (map fst (filter snd (zip (index X) sel)))
                      (map fst (filter snd (zip deaths sel))))
                  (sort (remdups (map fst (filter snd (zip (index X) sel)))))" and
      pg: "pg = map (group_sum (map fst (filter snd (zip (index X) sel)))
                      (map fst (filter snd (zip persons sel))))
                  (sort (remdups (map fst (filter snd (zip (index X) sel)))))"
      by (auto simp: getitem_groupby getitem_filter_rows index_filter_rows split: sum.splits)
    have len: "length (index X) = length sel" "length deaths = length sel" "length persons = length sel"
      using ls getitem_length [OF assms(1) c(1)] getitem_length [OF assms(1) c(2)]
      by (simp_all add: nrows_def)
    have "rate_series dg pg =
            map (\<lambda>d. if band_date_total X sel persons d = 0 then None
                      else Some (band_date_total X sel deaths d / band_date_total X sel persons d
                                 * 1000 * 52))
              (sort (remdups (map fst (filter snd (zip (index X) sel)))))"
      unfolding dg pg rate_series_grouped
      by (simp add: group_sum_selected [OF len(1,2)] group_sum_selected [OF len(1,3)]
          band_date_total_def)
    with sel c d show ?thesis
      by (simp add: index_groupby index_filter_rows)
  qed
qed

lemma example_run_well_formed: "well_formed (out_X example_run)"
  by (simp add: well_formed_def colnames_def nrows_def example_run_def)

lemma example_band_totals:
  "band_date_total (out_X example_run) [True, True, False, True] [10, 12, 30, 8] (2011, 2, 28) = 10 + 12"
  "band_date_total (out_X example_run) [True, True, False, True] [1000, 1100, 500, 1000] (2011, 2, 28)
     = 1000 + 1100"
  by (simp_all add: band_date_total_def sum_where_def ex_idx upt_rec numeral_nat)

theorem aggregated_rate_witness:
  "well_formed (out_X example_run) \<and>
   cell9 (out_X example_run) (out_X_cont example_run) = Inr example_plots \<and> (0 :: nat) < 3 \<and>
   (\<exists>dates rates. map_of (example_plots ! 6) ''Actual - Age 65-74'' = Some (dates, rates) \<and>
      dates ! 0 = (2011, 2, 28) \<and> rates ! 0 = Some ((10 + 12) / (1000 + 1100) * 1000 * 52)) \<and>
   \<bar>(10 + 12) / (1000 + 1100) * 1000 * 52 - (544.76 :: real)\<bar> < 0.01"
proof -
  from aggregated_rate [OF example_run_well_formed example_cell9, of 0]
  obtain sel deaths persons where
    s: "age_mask (out_X example_run) ''65'' = Inr sel" and
    c: "getitem (out_X example_run) ''Deaths'' = Inr deaths"
       "getitem (out_X example_run) ''Persons'' = Inr persons" and
    m: "map_of (example_plots ! 6) ''Actual - Age 65-74'' =
       Some (sort (remdups (map fst (filter snd (zip (index (out_X example_run)) sel)))),
             map (\<lambda>d. if band_date_total (out_X example_run) sel persons d = 0 then None
                      else Some (band_date_total (out_X example_run) sel deaths d /
                                 band_date_total (out_X example_run) sel persons d * 1000 * 52))
               (sort (remdups (map fst (filter snd (zip (index (out_X example_run)) sel))))))"
    by (auto simp: agelist_def agedesc_def)
  have sel: "sel = [True, True, False, True]"
    using s by (simp add: age_mask_def and_then_def ex_cols)
  have dp: "deaths = [10, 12, 30, 8]" "persons = [1000, 1100, 500, 1000]"
    using c by (simp_all add: ex_cols)
  have k: "sort (remdups (map fst (filter snd (zip (index (out_X example_run)) sel)))) =
             [(2011, 2, 28), (2011, 5, 31)]"
    by (simp add: sel ex_idx ex_sort)
  have "map_of (example_plots ! 6) ''Actual - Age 65-74'' =
       Some ([(2011, 2, 28), (2011, 5, 31)],
             map (\<lambda>d. if band_date_total (out_X example_run) sel persons d = 0 then None
                      else Some (band_date_total (out_X example_run) sel deaths d /
                                 band_date_total (out_X example_run) sel persons d * 1000 * 52))
               [(2011, 2, 28), (2011, 5, 31)])"
    using m unfolding k .
  moreover have "map (\<lambda>d. if band_date_total (out_X example_run) sel persons d = 0 then None
                      else Some (band_date_total (out_X example_run) sel deaths d /
                                 band_date_total (out_X example_run) sel persons d * 1000 * 52))
               [(2011, 2, 28), (2011, 5, 31)] ! 0 = Some ((10 + 12) / (1000 + 1100) * 1000 * 52)"
    unfolding sel dp by (simp add: example_band_totals)
  moreover have "\<bar>(10 + 12) / (1000 + 1100) * 1000 * 52 - (544.76 :: real)\<bar> < 0.01"
    by simp
  ultimately show ?thesis
    using example_run_well_formed example_cell9 by auto
qed


section \<open>Contributions of the other age bands (cells 5, 7 and 9)\<close>

lemma sum_where_cong:
  "(\<And>r. r < length c \<Longrightarrow> P r = Q r) \<Longrightarrow> sum_where P c = sum_where Q c"
  unfolding sum_where_def by (rule arg_cong [where f = "\<lambda>xs. sum_list (map ((!) c) xs)"], rule filter_cong) auto

lemma sum_where_zero:
  assumes "\<And>r. r < length c \<Longrightarrow> Q r \<Longrightarrow> \<not> P r \<Longrightarrow> c ! r = 0"
  shows "sum_where Q c = sum_where (\<lambda>r. P r \<and> Q r) c"
proof -
  have "sum_where Q c = sum_list (map (\<lambda>r. if Q r then c ! r else 0) [0..<length c])"
    by (simp add: sum_where_def sum_list_map_filter')
  also have "\<dots> = sum_list (map (\<lambda>r. if P r \<and> Q r then c ! r else 0) [0..<length c])"
    by (rule arg_cong [where f = sum_list], rule map_cong) (use assms in auto)
  also have "\<dots> = sum_where (\<lambda>r. P r \<and> Q r) c"
    by (simp add: sum_where_def sum_list_map_filter')
  finally show ?thesis .
qed

lemma contribution_index:
  assumes "mul_axis1 Xp ws = Inr c1" "mul_axis0 c1 persons = Inr c2"
  shows "index (div_scalar (div_scalar c2 1000) 52) = index Xp"
  using assms by (auto simp: mul_axis1_def mul_axis0_def div_scalar_def split: if_splits)

lemma contribution_getitem:
  assumes "well_formed Xp" "mul_axis1 Xp ws = Inr c1" "mul_axis0 c1 persons = Inr c2"
    "getitem (div_scalar (div_scalar c2 1000) 52) name = Inr cont"
  shows "\<exists>x w. getitem Xp name = Inr x \<and>
           cont = map (\<lambda>v. v / 52) (map (\<lambda>v. v / 1000) (mul_series (map (\<lambda>v. v * w) x) persons))"
proof -
  from assms(2) have
    c1: "columns c1 = map2 (\<lambda>c w. (fst c, map (\<lambda>x. x * w) (snd c))) (columns Xp) ws"
    by (auto simp: mul_axis1_def split: if_splits)
  from assms(3) have
    c2: "columns c2 = map (\<lambda>c. (fst c, mul_series (snd c) persons)) (columns c1)"
    by (auto simp: mul_axis0_def split: if_splits)
  define F where "F = (\<lambda>cw :: (string \<times> series) \<times> real.
    (fst (fst cw), map (\<lambda>v. v / 52) (map (\<lambda>v. v / 1000)
       (mul_series (map (\<lambda>v. v * snd cw) (snd (fst cw))) persons))))"
  have cols: "columns (div_scalar (div_scalar c2 1000) 52) = map F (zip (columns Xp) ws)"
    by (simp add: div_scalar_def c2 c1 F_def comp_def case_prod_unfold)
  from assms(4) have "map_of (map F (zip (columns Xp) ws)) name = Some cont"
    by (simp add: getitem_def cols split: option.splits)
  then have "(name, cont) \<in> set (map F (zip (columns Xp) ws))"
    by (rule map_of_SomeD)
  then obtain cw where cw: "cw \<in> set (zip (columns Xp) ws)" "F cw = (name, cont)"
    by auto
  then have "fst cw \<in> set (columns Xp)"
    by (metis set_zip_leftD prod.collapse)
  moreover have "fst cw = (name, snd (fst cw))"
    using cw(2) by (cases cw) (auto simp: F_def)
  ultimately have "(name, snd (fst cw)) \<in> set (columns Xp)" by simp
  then have "map_of (columns Xp) name = Some (snd (fst cw))"
    using assms(1) by (intro map_of_is_SomeI) (simp_all add: well_formed_def colnames_def)
  then have "getitem Xp name = Inr (snd (fst cw))"
    by (simp add: getitem_def)
  moreover have "cont = map (\<lambda>v. v / 52) (map (\<lambda>v. v / 1000)
       (mul_series (map (\<lambda>v. v * snd cw) (snd (fst cw))) persons))"
    using cw(2) by (simp add: F_def)
  ultimately show ?thesis by blast
qed

lemma getitem_iloc_from: "getitem (iloc_from X n) k = Inr c \<Longrightarrow> well_formed X \<Longrightarrow> getitem X k = Inr c"
proof -
  assume a: "getitem (iloc_from X n) k = Inr c" "well_formed X"
  then have "(k, c) \<in> set (drop n (columns X))"
    by (auto simp: getitem_def iloc_from_def split: option.splits dest: map_of_SomeD)
  then have "(k, c) \<in> set (columns X)" by (rule in_set_dropD)
  then have "map_of (columns X) k = Some c"
    using a(2) by (intro map_of_is_SomeI) (simp_all add: well_formed_def colnames_def)
  then show ?thesis by (simp add: getitem_def)
qed

text \<open>
  Claim C10. With binary indicators, an interaction column of age band \<open>a\<close>, and with it
  the band's contribution column, is zero on every row whose two indicators of the band
  are 0. So the sum of a contribution column over all rows of a date, taken without
  any age filter as cell 9 does for the winter quarter, is the total over the rows of
  band \<open>a\<close> at that date.
\<close>

theorem other_bands_contribute_nothing:
  assumes "well_formed mydata0" "cell5 mydata0 = Inr (mydata, X)" "cell7 lib g mydata X = Inr r"
    "a \<in> set agelist" "p \<in> {''WINT_'', ''IMP_'', ''AF_'', ''VE_''}"
    "getitem mydata0 (''Age=M'' @ a) = Inr m" "getitem mydata0 (''Age=F'' @ a) = Inr w"
    "list_all (\<lambda>v. v = 0 \<or> v = 1) m" "list_all (\<lambda>v. v = 0 \<or> v = 1) w"
    "getitem (out_X_cont r) (p @ a) = Inr cont"
  shows "\<exists>feat sel.
     getitem mydata (p @ a) = Inr feat \<and> age_mask (out_X r) a = Inr sel \<and>
     sel = map2 (\<lambda>x y. x = 1 \<or> y = 1) m w \<and>
     list_all (\<lambda>i. m ! i = 0 \<and> w ! i = 0 \<longrightarrow> feat ! i = 0 \<and> cont ! i = 0) [0..<nrows mydata0] \<and>
     (\<forall>d. group_sum (index (out_X_cont r)) cont d = band_date_total (out_X_cont r) sel cont d) \<and>
     getitem (groupby_index_sum (filter_rows (out_X_cont r) (month_mask (out_X_cont r) 2))) (p @ a) =
       Inr (map (band_date_total (out_X_cont r) sel cont)
              (sort (remdups (filter (\<lambda>d. month d = 2) (index (out_X_cont r))))))"
proof -
  note c5 = cell5_Inr [OF assms(2,1)]
  have n: "nrows X = nrows mydata0" "nrows mydata = nrows mydata0"
    using c5(4,5) by (simp_all add: nrows_def)
  from feature_builder_columns [OF c5(1) assms(4)] assms(6,7) obtain b1 b2 b3 b4 where
    base: "getitem mydata0 ''Winter'' = Inr b1" "getitem mydata0 ''Year'' = Inr b2"
      "getitem mydata0 ''AF'' = Inr b3" "getitem mydata0 ''VE'' = Inr b4" and
    new: "getitem mydata (''WINT_'' @ a) = Inr (mul_series b1 (add_series m w))"
      "getitem mydata (''IMP_'' @ a) = Inr (mul_series b2 (add_series m w))"
      "getitem mydata (''AF_'' @ a) = Inr (mul_series b3 (add_series m w))"
      "getitem mydata (''VE_'' @ a) = Inr (mul_series b4 (add_series m w))"
    by auto
  have lm: "length m = nrows mydata0" "length w = nrows mydata0"
    using getitem_length [OF assms(1,6)] getitem_length [OF assms(1,7)] by simp_all
  from assms(5) new obtain b where
    feat: "getitem mydata (p @ a) = Inr (mul_series b (add_series m w))" and
    "getitem mydata0 b' = Inr b \<Longrightarrow> True" for b'
    by auto
  define feat where "feat = mul_series b (add_series m w)"
  have lf: "length feat = nrows mydata0"
    using getitem_length [OF c5(2) feat] n by (simp add: feat_def)
  then have lb: "nrows mydata0 \<le> length b"
    using lm by (simp add: feat_def mul_series_def add_series_def)
  have fz: "feat ! i = 0" if "i < nrows mydata0" "m ! i = 0" "w ! i = 0" for i
    using that lm lb by (simp add: feat_def mul_series_def add_series_def)
  have keepM: "getitem (out_X r) (''Age=M'' @ a) = Inr m" "getitem (out_X r) (''Age=F'' @ a) = Inr w"
    if "out_X r = setitem (setitem (setitem (setitem X ''PredR'' predr) ''PredD'' predd)
                       ''PredR_Base'' predr_base) ''PredD_Base'' predd_base"
    for predr predd predr_base predd_base
    using cell7_out_X_getitem(5) [OF that, of "''Age=M'' @ a"]
      cell7_out_X_getitem(5) [OF that, of "''Age=F'' @ a"]
      c5(6) [of "''Age=M'' @ a"] c5(6) [of "''Age=F'' @ a"]
      feature_builder_other [OF c5(1), of "''Age=M'' @ a"]
      feature_builder_other [OF c5(1), of "''Age=F'' @ a"] assms(6,7)
    by simp_all
  from assms(3) show ?thesis
  proof (rule cell7_Inr)
    fix model predr persons X_cont1 X_cont2 predr_base
    assume c7: "getitem mydata ''Persons'' = Inr persons"
      "mul_axis1 (iloc_from X 9) (coef model) = Inr X_cont1"
      "mul_axis0 X_cont1 persons = Inr X_cont2"
      "out_X r = setitem (setitem (setitem (setitem X ''PredR'' predr) ''PredD''
                 (to_deaths persons predr)) ''PredR_Base'' predr_base) ''PredD_Base''
                 (to_deaths persons predr_base)"
      "out_X_cont r = div_scalar (div_scalar X_cont2 1000) 52"
    define sel where "sel = map2 (\<lambda>x y. x = 1 \<or> y = (1 :: real)) m w"
    have mask: "age_mask (out_X r) a = Inr sel"
      using keepM [OF c7(4)] by (simp add: age_mask_def and_then_def sel_def)
    have ls: "length sel = nrows mydata0" using lm by (simp add: sel_def)
    have idx: "index (out_X_cont r) = index mydata0"
      using contribution_index [OF c7(2,3)] c5(5) by (simp add: c7(5) iloc_from_def)
    have lp: "length persons = nrows mydata0"
      using getitem_length [OF c5(2) c7(1)] n by simp
    from contribution_getitem [OF iloc_from_wf [OF c5(3)] c7(2,3) assms(10) [unfolded c7(5)]]
    obtain x cf where
      x: "getitem (iloc_from X 9) (p @ a) = Inr x" and
      cont: "cont = map (\<lambda>v. v / 52) (map (\<lambda>v. v / 1000) (mul_series (map (\<lambda>v. v * cf) x) persons))"
      by blast
    have "getitem X (p @ a) = Inr x" using getitem_iloc_from [OF x c5(3)] .
    moreover have "getitem X (p @ a) = getitem mydata (p @ a)"
      using c5(6) [of "p @ a"] assms(5) by auto
    ultimately have xf: "x = feat" using feat by (simp add: feat_def)
    have lc: "length cont = nrows mydata0"
      using lf lp by (simp add: cont xf mul_series_def)
    have cv: "cont ! i = feat ! i * cf * persons ! i / 1000 / 52" if "i < nrows mydata0" for i
      using that lf lp by (simp add: cont xf mul_series_def)
    have cz: "cont ! i = 0" if "i < nrows mydata0" "\<not> sel ! i" for i
    proof -
      from that lm have "m ! i \<noteq> 1" "w ! i \<noteq> 1" by (simp_all add: sel_def)
      moreover have "m ! i = 0 \<or> m ! i = 1" "w ! i = 0 \<or> w ! i = 1"
        using assms(8,9) that(1) lm by (simp_all add: list_all_length)
      ultimately have "m ! i = 0" "w ! i = 0" by auto
      from fz [OF that(1) this] cv [OF that(1)] show ?thesis by simp
    qed
    have zero: "list_all (\<lambda>i. m ! i = 0 \<and> w ! i = 0 \<longrightarrow> feat ! i = 0 \<and> cont ! i = 0)
                  [0..<nrows mydata0]"
    proof -
      have "cont ! i = 0" if "i < nrows mydata0" "m ! i = 0" "w ! i = 0" for i
        using cv [OF that(1)] fz [OF that] by simp
      with fz show ?thesis by (simp add: list_all_iff)
    qed
    have tot: "group_sum (index (out_X_cont r)) cont d = band_date_total (out_X_cont r) sel cont d"
      for d
    proof -
      have "group_sum (index (out_X_cont r)) cont d = sum_where (\<lambda>r. index mydata0 ! r = d) cont"
        unfolding idx using lc by (intro group_sum_all) (simp add: nrows_def)
      also have "\<dots> = sum_where (\<lambda>r. sel ! r \<and> index mydata0 ! r = d) cont"
        by (rule sum_where_zero) (use cz lc in auto)
      finally show ?thesis by (simp add: band_date_total_def idx)
    qed
    let ?wm = "month_mask (out_X_cont r) 2"
    let ?widx = "map fst (filter snd (zip (index (out_X_cont r)) ?wm))"
    have widx: "?widx = filter (\<lambda>d. month d = 2) (index mydata0)"
      by (simp add: month_mask_def filter_by_own_mask idx)
    have w0: "map fst (filter snd (zip (index mydata0) ?wm)) =
                filter (\<lambda>d. month d = 2) (index mydata0)"
      by (simp add: month_mask_def filter_by_own_mask idx)
    have lw: "length (index mydata0) = length ?wm" "length cont = length ?wm"
      using lc by (simp_all add: month_mask_def idx nrows_def)
    have wsum: "group_sum ?widx (map fst (filter snd (zip cont ?wm))) d =
                  band_date_total (out_X_cont r) sel cont d"
      if "d \<in> set (sort (remdups ?widx))" for d
    proof -
      from that have md: "month d = 2" by (simp add: widx)
      have "group_sum ?widx (map fst (filter snd (zip cont ?wm))) d =
              sum_where (\<lambda>r. ?wm ! r \<and> index mydata0 ! r = d) cont"
        using group_sum_selected [OF lw, of d] by (simp add: idx)
      also have "\<dots> = sum_where (\<lambda>r. index mydata0 ! r = d) cont"
        by (rule sum_where_cong) (use md lc in \<open>auto simp: month_mask_def idx nrows_def\<close>)
      also have "\<dots> = sum_where (\<lambda>r. sel ! r \<and> index mydata0 ! r = d) cont"
        by (rule sum_where_zero) (use cz lc in auto)
      finally show ?thesis by (simp add: band_date_total_def idx)
    qed
    have grp: "getitem (groupby_index_sum (filter_rows (out_X_cont r) ?wm)) (p @ a) =
       Inr (map (band_date_total (out_X_cont r) sel cont)
              (sort (remdups (filter (\<lambda>d. month d = 2) (index (out_X_cont r))))))"
    proof -
      have "getitem (groupby_index_sum (filter_rows (out_X_cont r) ?wm)) (p @ a) =
              Inr (map (group_sum ?widx (map fst (filter snd (zip cont ?wm)))) (sort (remdups ?widx)))"
        by (simp add: getitem_groupby getitem_filter_rows index_filter_rows assms(10))
      also have "map (group_sum ?widx (map fst (filter snd (zip cont ?wm)))) (sort (remdups ?widx)) =
                 map (band_date_total (out_X_cont r) sel cont) (sort (remdups ?widx))"
        by (rule map_cong [OF refl]) (rule wsum)
      finally show ?thesis by (simp only: idx w0)
    qed
    from feat mask zero tot grp show ?thesis
      unfolding feat_def [symmetric] sel_def [symmetric] by blast
  qed
qed

theorem other_bands_contribute_nothing_witness:
  "well_formed example_table \<and> cell5 example_table = Inr (example_mydata, example_X) \<and>
   cell7 example_library 0 example_mydata example_X = Inr example_run \<and>
   ''65'' \<in> set agelist \<and>
   getitem example_table ''Age=M65'' = Inr [1, 0, 0, 1] \<and>
   getitem example_table ''Age=F65'' = Inr [0, 1, 0, 0] \<and>
   list_all (\<lambda>v. v = 0 \<or> v = (1 :: real)) [1, 0, 0, 1] \<and>
   list_all (\<lambda>v. v = 0 \<or> v = (1 :: real)) [0, 1, 0, 0] \<and>
   getitem (out_X_cont example_run) ''AF_65'' = Inr [15 / 26, 33 / 52, 0, 5 / 52] \<and>
   (\<exists>sel. age_mask (out_X example_run) ''65'' = Inr sel \<and>
      getitem (groupby_index_sum (filter_rows (out_X_cont example_run)
                 (month_mask (out_X_cont example_run) 2))) ''AF_65'' =
        Inr (map (band_date_total (out_X_cont example_run) sel [15 / 26, 33 / 52, 0, 5 / 52])
               (sort (remdups (filter (\<lambda>d. month d = 2) (index (out_X_cont example_run)))))))"
proof -
  have a: "''65'' \<in> set agelist" by (simp add: agelist_def)
  have p: "''AF_'' \<in> {''WINT_'', ''IMP_'', ''AF_'', ''VE_''}" by simp
  have m: "getitem example_table ''Age=M65'' = Inr [1, 0, 0, 1]"
    "getitem example_table ''Age=F65'' = Inr [0, 1, 0, 0]"
    by (simp_all add: getitem_def example_table_def)
  have b: "list_all (\<lambda>v. v = 0 \<or> v = (1 :: real)) [1, 0, 0, 1]"
    "list_all (\<lambda>v. v = 0 \<or> v = (1 :: real)) [0, 1, 0, 0]" by simp_all
  have c: "getitem (out_X_cont example_run) ''AF_65'' = Inr [15 / 26, 33 / 52, 0, 5 / 52]"
    by (simp add: ex_cols)
  note th = other_bands_contribute_nothing
         [where a = "''65''" and p = "''AF_''", unfolded append.simps,
          OF example_well_formed example_cell5 example_cell7 a p m b c]
  from th obtain sel where
    "age_mask (out_X example_run) ''65'' = Inr sel"
    "getitem (groupby_index_sum (filter_rows (out_X_cont example_run)
                 (month_mask (out_X_cont example_run) 2))) ''AF_65'' =
        Inr (map (band_date_total (out_X_cont example_run) sel [15 / 26, 33 / 52, 0, 5 / 52])
               (sort (remdups (filter (\<lambda>d. month d = 2) (index (out_X_cont example_run))))))"
    by blast
  with example_well_formed example_cell5 example_cell7 a m b c show ?thesis
    by (intro conjI exI [of _ sel])
qed

end
